theory Spec2Isabelle
  imports Main "HOL-Library.Multiset"
begin

section \<open>Strings and thrown values\<close>

text \<open>
  JavaScript strings are modelled as \<^typ>\<open>string\<close>. The model covers ASCII text:
  \<open>toLowerCase\<close> maps the letters A-Z to a-z and leaves every other character as it
  is, and \<open>trim\<close> strips the ASCII white space and line terminators (tab, line feed,
  vertical tab, form feed, carriage return, space) from both ends.
\<close>

definition upperChars :: string where
  "upperChars = ''ABCDEFGHIJKLMNOPQRSTUVWXYZ''"

definition lowerChars :: string where
  "lowerChars = ''abcdefghijklmnopqrstuvwxyz''"

definition toLowerCase_char :: "char \<Rightarrow> char" where
  "toLowerCase_char c =
     (case map_of (zip upperChars lowerChars) c of Some d \<Rightarrow> d | None \<Rightarrow> c)"

definition toLowerCase :: "string \<Rightarrow> string" where
  "toLowerCase s = map toLowerCase_char s"

definition isWhiteSpace :: "char \<Rightarrow> bool" where
  "isWhiteSpace c = (c \<in> set [CHR 0x09, CHR 0x0A, CHR 0x0B, CHR 0x0C, CHR 0x0D, CHR '' ''])"

definition trim :: "string \<Rightarrow> string" where
  "trim s = rev (dropWhile isWhiteSpace (rev (dropWhile isWhiteSpace s)))"

text \<open>
  A value that a \<open>throw\<close> or a rejected promise carries. All constructors but
  \<open>NonError\<close> are instances of the JavaScript class \<open>Error\<close> and carry their message
  first; \<open>DatabaseError\<close> also carries its code, \<open>TimeoutError\<close> its budget and
  operation name. \<open>NonError\<close> stands for any other thrown value and carries the text
  that \<open>String(value)\<close> gives for it.
\<close>

datatype thrown =
    Error string
  | TypeError string
  | DatabaseError string string
  | TimeoutError string nat string
  | NonError string

fun instanceofError :: "thrown \<Rightarrow> bool" where
  "instanceofError (NonError s) = False"
| "instanceofError e = True"

text \<open>The property \<open>message\<close> of an \<open>Error\<close> object (the code reads it of no other value).\<close>

fun error_message :: "thrown \<Rightarrow> string" where
  "error_message (Error m) = m"
| "error_message (TypeError m) = m"
| "error_message (DatabaseError m c) = m"
| "error_message (TimeoutError m t opn) = m"
| "error_message (NonError s) = []"

text \<open>The expression \<open>error instanceof Error ? error.message : 'Unknown error'\<close>.\<close>

definition messageOrUnknown :: "thrown \<Rightarrow> string" where
  "messageOrUnknown e = (if instanceofError e then error_message e else ''Unknown error'')"

text \<open>The expression \<open>error instanceof Error ? error.message : String(error)\<close>.\<close>

definition messageOrString :: "thrown \<Rightarrow> string" where
  "messageOrString e =
     (if instanceofError e then error_message e else (case e of NonError s \<Rightarrow> s | _ \<Rightarrow> []))"

text \<open>A number inside a template literal: its decimal digits, with a sign when negative.\<close>

definition digitChar :: "nat \<Rightarrow> char" where
  "digitChar d = ''0123456789'' ! d"

fun decimalDigits :: "nat \<Rightarrow> string" where
  "decimalDigits n = (if 10 \<le> n then decimalDigits (n div 10) else []) @ [digitChar (n mod 10)]"

declare decimalDigits.simps [simp del]

definition numberText :: "int \<Rightarrow> string" where
  "numberText i = (if 0 \<le> i then decimalDigits (nat i) else CHR ''-'' # decimalDigits (nat (- i)))"

section \<open>Type compatibility (\<open>areTypesCompatible\<close>, database.ts)\<close>

text \<open>
  The object literal \<open>typeMap\<close>, its entries in source order (the order in which
  \<open>Object.entries\<close> enumerates them).
\<close>

definition typeMap :: "(string \<times> string list) list" where
  "typeMap =
   [(''varchar'', [''character varying'', ''text'', ''varchar'', ''char'', ''character'']),
    (''char'', [''character'', ''char'', ''character varying'', ''varchar'']),
    (''text'', [''text'', ''character varying'', ''varchar'']),
    (''longtext'', [''text'', ''character varying'']),
    (''mediumtext'', [''text'', ''character varying'']),
    (''tinytext'', [''text'', ''character varying'', ''varchar'']),
    (''int'', [''integer'', ''bigint'', ''int'', ''int4'', ''int8'']),
    (''integer'', [''integer'', ''bigint'', ''int'', ''int4'', ''int8'']),
    (''tinyint'', [''smallint'', ''integer'', ''boolean'', ''int2'', ''int4'']),
    (''smallint'', [''smallint'', ''integer'', ''int2'', ''int4'']),
    (''mediumint'', [''integer'', ''int4'']),
    (''bigint'', [''bigint'', ''integer'', ''int8'', ''int4'']),
    (''decimal'', [''numeric'', ''decimal'']),
    (''numeric'', [''numeric'', ''decimal'']),
    (''float'', [''real'', ''double precision'', ''float4'', ''float8'']),
    (''double'', [''double precision'', ''real'', ''float8'', ''float4'']),
    (''real'', [''real'', ''float4'']),
    (''datetime'', [''timestamp'', ''timestamp without time zone'', ''timestamp with time zone'']),
    (''timestamp'', [''timestamp'', ''timestamp without time zone'', ''timestamp with time zone'',
                     ''datetime'']),
    (''date'', [''date'']),
    (''time'', [''time'', ''time without time zone'']),
    (''year'', [''integer'', ''smallint'']),
    (''boolean'', [''boolean'', ''bool'']),
    (''bool'', [''boolean'', ''bool'']),
    (''blob'', [''bytea'', ''blob'']),
    (''longblob'', [''bytea'', ''blob'']),
    (''mediumblob'', [''bytea'', ''blob'']),
    (''tinyblob'', [''bytea'', ''blob'']),
    (''binary'', [''bytea'', ''blob'']),
    (''varbinary'', [''bytea'', ''blob'']),
    (''TEXT'', [''text'', ''character varying'', ''varchar'', ''char'']),
    (''INTEGER'', [''integer'', ''bigint'', ''int'', ''smallint'', ''int4'', ''int8'', ''int2'']),
    (''REAL'', [''real'', ''double precision'', ''float'', ''numeric'', ''decimal'']),
    (''NUMERIC'', [''numeric'', ''decimal'', ''real'', ''double precision'']),
    (''BLOB'', [''bytea'', ''blob'']),
    (''json'', [''json'', ''jsonb'']),
    (''jsonb'', [''json'', ''jsonb''])]"

text \<open>
  \<open>typeMap\<close> is a plain object, so the property read \<open>typeMap[key]\<close> walks the
  prototype chain: a key that is not an own property but names a property of
  \<open>Object.prototype\<close> reads that inherited value (a function, or the prototype object
  itself for \<open>__proto__\<close>), which is truthy and has no \<open>includes\<close> method.
\<close>

definition objectPrototypeKeys :: "string list" where
  "objectPrototypeKeys =
   [''constructor'', ''__defineGetter__'', ''__defineSetter__'', ''hasOwnProperty'',
    ''__lookupGetter__'', ''__lookupSetter__'', ''isPrototypeOf'', ''propertyIsEnumerable'',
    ''toString'', ''valueOf'', ''__proto__'', ''toLocaleString'']"

datatype property_value = Undefined | OwnArray "string list" | Inherited

definition typeMapGet :: "string \<Rightarrow> property_value" where
  "typeMapGet key =
     (case map_of typeMap key of
        Some accepted \<Rightarrow> OwnArray accepted
      | None \<Rightarrow> if key \<in> set objectPrototypeKeys then Inherited else Undefined)"

text \<open>
  The guarded membership test
  \<open>if (typeMap[k]) { const isCompatible = typeMap[k].includes(other); ... }\<close>:
  \<open>Inr b\<close> is the value of \<open>isCompatible\<close> (\<open>False\<close> when the guard fails), \<open>Inl\<close> the
  \<open>TypeError\<close> of calling the missing method \<open>includes\<close>.
\<close>

definition mappingCheck :: "string \<Rightarrow> string \<Rightarrow> string \<Rightarrow> thrown + bool" where
  "mappingCheck expr key other =
     (case typeMapGet key of
        Undefined \<Rightarrow> Inr False
      | OwnArray accepted \<Rightarrow> Inr (other \<in> set accepted)
      | Inherited \<Rightarrow> Inl (TypeError (expr @ ''.includes is not a function'')))"

definition sameGroup :: "string \<Rightarrow> string \<Rightarrow> bool" where
  "sameGroup a b = list_ex (\<lambda>(baseType, compatibleTypes).
       a \<in> set compatibleTypes \<and> b \<in> set compatibleTypes) typeMap"

definition normalizeType :: "string \<Rightarrow> string" where
  "normalizeType t = trim (toLowerCase t)"

definition areTypesCompatible :: "string \<Rightarrow> string \<Rightarrow> thrown + bool" where
  "areTypesCompatible sourceType targetType =
     (let normalizedSource = normalizeType sourceType;
          normalizedTarget = normalizeType targetType
      in if normalizedSource = normalizedTarget then Inr True
         else case mappingCheck ''typeMap[normalizedSource]'' normalizedSource normalizedTarget of
                Inl e \<Rightarrow> Inl e
              | Inr True \<Rightarrow> Inr True
              | Inr False \<Rightarrow>
                 (case mappingCheck ''typeMap[normalizedTarget]'' normalizedTarget normalizedSource of
                    Inl e \<Rightarrow> Inl e
                  | Inr True \<Rightarrow> Inr True
                  | Inr False \<Rightarrow> Inr (sameGroup normalizedSource normalizedTarget)))"

section \<open>Schema comparison (\<open>compareSchemas\<close>, database.ts)\<close>

text \<open>
  A column descriptor \<open>{name, type, nullable}\<close>; the fields \<open>name\<close> and \<open>type\<close> are
  written \<open>col_name\<close> and \<open>col_type\<close>.
\<close>

record Column =
  col_name :: string
  col_type :: string
  nullable :: bool

text \<open>
  The loop over the positions of \<open>compareSchemas\<close>, run on the two column lists
  side by side once their lengths are known to agree: the first failing check of the
  first failing position decides, and a \<open>TypeError\<close> of \<open>areTypesCompatible\<close> leaves the
  function as an exception.
\<close>

fun compareColumns :: "Column list \<Rightarrow> Column list \<Rightarrow> thrown + bool" where
  "compareColumns (source # sourceRest) (target # targetRest) =
     (if toLowerCase (col_name source) \<noteq> toLowerCase (col_name target) then Inr False
      else if nullable source \<noteq> nullable target then Inr False
      else case areTypesCompatible (col_type source) (col_type target) of
             Inl e \<Rightarrow> Inl e
           | Inr False \<Rightarrow> Inr False
           | Inr True \<Rightarrow> compareColumns sourceRest targetRest)"
| "compareColumns sourceColumns targetColumns = Inr True"

definition compareSchemas :: "Column list \<Rightarrow> Column list \<Rightarrow> thrown + bool" where
  "compareSchemas sourceColumns targetColumns =
     (if length sourceColumns \<noteq> length targetColumns then Inr False
      else compareColumns sourceColumns targetColumns)"

section \<open>Connection descriptors and backend adapters\<close>

datatype DatabaseType = mysql | postgres | sqlite

text \<open>
  \<open>DBConnection\<close> (shared/schema.ts); the field \<open>type\<close> is written \<open>db_type\<close>, an
  optional field is an \<open>option\<close>.
\<close>

record DBConnection =
  db_type :: DatabaseType
  host :: "string option"
  port :: "nat option"
  user :: "string option"
  password :: "string option"
  database :: string
  filePath :: "string option"
  fileData :: "string option"
  fileId :: "string option"

text \<open>
  A sampled row is the list of its properties in \<open>Object.keys\<close> order; a value is
  \<open>None\<close> for \<open>null\<close> and otherwise the text \<open>String(value)\<close> gives for it, which is all
  the comparison reads.
\<close>

type_synonym row = "(string \<times> string option) list"

text \<open>
  What the two databases answer. Each operation of \<open>DatabaseService\<close> that reaches a
  backend is a function from its arguments to the value the awaited promise settles
  with (\<open>Inl\<close>: it rejects). \<open>timerFiresFirst i\<close> tells whether, for the table at
  position \<open>i\<close> of the common-table list, the timer of \<open>withTimeout\<close> fires before the
  table's verification settles.
\<close>

record Backends =
  testConnection :: "DBConnection \<Rightarrow> thrown + unit"
  getTables :: "DBConnection \<Rightarrow> thrown + string list"
  getTableRowCount :: "DBConnection \<Rightarrow> string \<Rightarrow> thrown + int"
  getTableSchema :: "DBConnection \<Rightarrow> string \<Rightarrow> thrown + Column list"
  getSampleData :: "DBConnection \<Rightarrow> string \<Rightarrow> nat \<Rightarrow> thrown + row list"
  timerFiresFirst :: "nat \<Rightarrow> bool"

text \<open>The part of \<open>appConfig.verification\<close> that the verification reads.\<close>

record VerificationConfig =
  maxConcurrentTables :: nat
  sampleDataSize :: nat
  processingTimeout :: nat
  enableParallelProcessing :: bool

section \<open>Sample comparison (\<open>verifyDataMapping\<close>, database.ts)\<close>

record DataMappingResult =
  isValid :: bool
  details :: string

text \<open>A value inside a template literal: \<open>null\<close> prints as \<open>null\<close>.\<close>

definition templateValue :: "string option \<Rightarrow> string" where
  "templateValue v = (case v of None \<Rightarrow> ''null'' | Some s \<Rightarrow> s)"

text \<open>
  The property read \<open>row[key]\<close>; a missing property reads \<open>undefined\<close>, which is not
  \<open>null\<close> and prints as \<open>undefined\<close>.
\<close>

definition rowGet :: "row \<Rightarrow> string \<Rightarrow> string option" where
  "rowGet r key = (case map_of r key of Some v \<Rightarrow> v | None \<Rightarrow> Some ''undefined'')"

text \<open>
  The loop over \<open>sourceKeys\<close> for row \<open>i\<close> (counted from 0): \<open>Some d\<close> is the early return
  with details \<open>d\<close>, \<open>None\<close> the normal end of the loop. An empty string found as the
  target key is falsy, so \<open>!targetKey\<close> takes it for a missing column.
\<close>

fun compareKeys :: "nat \<Rightarrow> row \<Rightarrow> row \<Rightarrow> string list \<Rightarrow> string option" where
  "compareKeys i sourceRow targetRow [] = None"
| "compareKeys i sourceRow targetRow (sourceKey # rest) =
     (let notFound = ''Column \"'' @ sourceKey @ ''\" not found in target row '' @ decimalDigits (i + 1)
      in case find (\<lambda>tk. toLowerCase tk = toLowerCase sourceKey) (map fst targetRow) of
        None \<Rightarrow> Some notFound
      | Some targetKey \<Rightarrow>
          if targetKey = [] then Some notFound
          else
            let sourceValue = rowGet sourceRow sourceKey;
                targetValue = rowGet targetRow targetKey
            in if sourceValue = None \<and> targetValue = None
                 then compareKeys i sourceRow targetRow rest
               else if sourceValue = None \<or> targetValue = None
                 then Some (''Null value mismatch in row '' @ decimalDigits (i + 1) @ '', column \"''
                        @ sourceKey @ ''\": source='' @ templateValue sourceValue
                        @ '', target='' @ templateValue targetValue)
               else
                 let sourceStr = trim (the sourceValue);
                     targetStr = trim (the targetValue)
                 in if sourceStr \<noteq> targetStr
                      then Some (''Value mismatch in row '' @ decimalDigits (i + 1) @ '', column \"''
                             @ sourceKey @ ''/'' @ targetKey @ ''\": source=\"'' @ sourceStr
                             @ ''\", target=\"'' @ targetStr @ ''\"'')
                    else compareKeys i sourceRow targetRow rest)"

text \<open>The loop over the sampled rows, from row \<open>i\<close> on; the two lists have equal length.\<close>

fun compareRows :: "nat \<Rightarrow> row list \<Rightarrow> row list \<Rightarrow> string option" where
  "compareRows i (sourceRow # sourceRest) (targetRow # targetRest) =
     (if length sourceRow \<noteq> length targetRow
        then Some (''Column count mismatch in row '' @ decimalDigits (i + 1) @ '': source=''
               @ decimalDigits (length sourceRow) @ '', target='' @ decimalDigits (length targetRow))
      else case compareKeys i sourceRow targetRow (map fst sourceRow) of
             Some d \<Rightarrow> Some d
           | None \<Rightarrow> compareRows (i + 1) sourceRest targetRest)"
| "compareRows i sourceData targetData = None"

definition compareSamples :: "row list \<Rightarrow> row list \<Rightarrow> DataMappingResult" where
  "compareSamples sourceData targetData =
     (if length sourceData \<noteq> length targetData
        then \<lparr>isValid = False,
              details = ''Row count mismatch in sample: source='' @ decimalDigits (length sourceData)
                        @ '', target='' @ decimalDigits (length targetData)\<rparr>
      else case compareRows 0 sourceData targetData of
             Some d \<Rightarrow> \<lparr>isValid = False, details = d\<rparr>
           | None \<Rightarrow> \<lparr>isValid = True,
                       details = ''All '' @ decimalDigits (length sourceData)
                                 @ '' sample rows match perfectly''\<rparr>)"

text \<open>
  One call of \<open>getSampleData\<close>: the descriptor, the table and the sample size it was
  made with. \<open>verifyDataMapping\<close> returns its result together with the calls it made, in
  order.
\<close>

type_synonym sample_call = "DBConnection \<times> string \<times> nat"

definition dataMappingFailure :: "thrown \<Rightarrow> DataMappingResult" where
  "dataMappingFailure e =
     \<lparr>isValid = False,
      details = ''Error during data mapping verification: '' @ messageOrString e\<rparr>"

definition verifyDataMapping ::
  "Backends \<Rightarrow> DBConnection \<Rightarrow> DBConnection \<Rightarrow> string \<Rightarrow> nat
     \<Rightarrow> DataMappingResult \<times> sample_call list" where
  "verifyDataMapping backends sourceConfig targetConfig tableName sampleSize =
     (if db_type sourceConfig = sqlite \<and> db_type targetConfig = sqlite
         \<and> database sourceConfig = database targetConfig
        then (\<lparr>isValid = True,
               details = ''Identical SQLite database - same file for source and target''\<rparr>, [])
      else case getSampleData backends sourceConfig tableName sampleSize of
             Inl e \<Rightarrow> (dataMappingFailure e, [(sourceConfig, tableName, sampleSize)])
           | Inr sourceData \<Rightarrow>
              (case getSampleData backends targetConfig tableName sampleSize of
                 Inl e \<Rightarrow> (dataMappingFailure e,
                           [(sourceConfig, tableName, sampleSize), (targetConfig, tableName, sampleSize)])
               | Inr targetData \<Rightarrow>
                   (compareSamples sourceData targetData,
                    [(sourceConfig, tableName, sampleSize), (targetConfig, tableName, sampleSize)])))"

section \<open>One table (\<open>processTableVerification\<close>, database.ts)\<close>

datatype TableStatus = MATCH | MISMATCH

record TableVerificationResult =
  sourceRows :: int
  targetRows :: int
  schemaMatch :: bool
  status :: TableStatus
  sourceColumns :: "Column list"
  targetColumns :: "Column list"
  dataMappingValid :: bool
  dataMappingDetails :: string

definition processTableVerification ::
  "Backends \<Rightarrow> VerificationConfig \<Rightarrow> DBConnection \<Rightarrow> DBConnection \<Rightarrow> string
     \<Rightarrow> (thrown + TableVerificationResult) \<times> sample_call list" where
  "processTableVerification backends cfg sourceConfig targetConfig tableName =
     (case getTableRowCount backends sourceConfig tableName of Inl e \<Rightarrow> (Inl e, [])
      | Inr sourceRowCount \<Rightarrow>
     (case getTableRowCount backends targetConfig tableName of Inl e \<Rightarrow> (Inl e, [])
      | Inr targetRowCount \<Rightarrow>
     (case getTableSchema backends sourceConfig tableName of Inl e \<Rightarrow> (Inl e, [])
      | Inr sourceCols \<Rightarrow>
     (case getTableSchema backends targetConfig tableName of Inl e \<Rightarrow> (Inl e, [])
      | Inr targetCols \<Rightarrow>
     (case compareSchemas sourceCols targetCols of Inl e \<Rightarrow> (Inl e, [])
      | Inr schemaOk \<Rightarrow>
        let rowsMatch = (sourceRowCount = targetRowCount);
            (dataMappingResult, calls) =
               (if schemaOk \<and> rowsMatch
                  then verifyDataMapping backends sourceConfig targetConfig tableName
                         (sampleDataSize cfg)
                else (\<lparr>isValid = True, details = ''Not verified''\<rparr>, []))
        in (Inr \<lparr>sourceRows = sourceRowCount,
                  targetRows = targetRowCount,
                  schemaMatch = schemaOk,
                  status = (if schemaOk \<and> rowsMatch \<and> isValid dataMappingResult
                            then MATCH else MISMATCH),
                  sourceColumns = sourceCols,
                  targetColumns = targetCols,
                  dataMappingValid = isValid dataMappingResult,
                  dataMappingDetails = details dataMappingResult\<rparr>, calls))))))"

section \<open>The run (\<open>verifyMigration\<close>, \<open>processTablesInParallel\<close>, database.ts)\<close>

text \<open>
  \<open>TableComparison\<close> (shared/schema.ts) has the fields of the per-table result and the
  table's name.
\<close>

record TableComparison = TableVerificationResult +
  tableName :: string

text \<open>
  \<open>withTimeout\<close> (error-handler.ts) settles with whatever comes first, the promise or
  the timer; \<open>timerFirst\<close> says which.
\<close>

definition withTimeout :: "bool \<Rightarrow> thrown + 'a \<Rightarrow> nat \<Rightarrow> string \<Rightarrow> thrown + 'a" where
  "withTimeout timerFirst settled timeoutMs operation =
     (if timerFirst
        then Inl (TimeoutError (operation @ '' timed out after '' @ decimalDigits timeoutMs @ ''ms'')
                    timeoutMs operation)
      else settled)"

text \<open>
  The awaited expression \<open>withTimeout(this.processTableVerification(...),
  appConfig.verification.processingTimeout, `Table "${tableName}" processing`)\<close> for the
  table at position \<open>i\<close> of the common-table list.
\<close>

definition awaitTable ::
  "Backends \<Rightarrow> VerificationConfig \<Rightarrow> DBConnection \<Rightarrow> DBConnection \<Rightarrow> nat \<Rightarrow> string
     \<Rightarrow> thrown + TableVerificationResult" where
  "awaitTable backends cfg sourceConfig targetConfig i name =
     withTimeout (timerFiresFirst backends i)
       (fst (processTableVerification backends cfg sourceConfig targetConfig name))
       (processingTimeout cfg) (''Table \"'' @ name @ ''\" processing'')"

text \<open>The object pushed after a table's verification settled well.\<close>

definition successComparison :: "string \<Rightarrow> TableVerificationResult \<Rightarrow> TableComparison" where
  "successComparison name tableResult =
     \<lparr>sourceRows = sourceRows tableResult,
      targetRows = targetRows tableResult,
      schemaMatch = schemaMatch tableResult,
      status = status tableResult,
      sourceColumns = sourceColumns tableResult,
      targetColumns = targetColumns tableResult,
      dataMappingValid = dataMappingValid tableResult,
      dataMappingDetails = dataMappingDetails tableResult,
      tableName = name\<rparr>"

text \<open>The object pushed by the \<open>catch\<close> block around a table's verification.\<close>

definition failedComparison :: "string \<Rightarrow> thrown \<Rightarrow> TableComparison" where
  "failedComparison name e =
     \<lparr>sourceRows = 0,
      targetRows = 0,
      schemaMatch = False,
      status = MISMATCH,
      sourceColumns = [],
      targetColumns = [],
      dataMappingValid = False,
      dataMappingDetails = ''Processing failed: '' @ messageOrUnknown e,
      tableName = name\<rparr>"

text \<open>
  The sequential loop \<open>for (const tableName of commonTables)\<close> over the tables with
  their positions; the loop's variables are (\<open>comparison\<close>, \<open>totalSourceRows\<close>,
  \<open>matchedTables\<close>). The calls of the progress service are left out: they change no
  variable of the run and catch their own send errors.
\<close>

fun sequentialLoop ::
  "(nat \<Rightarrow> string \<Rightarrow> thrown + TableVerificationResult) \<Rightarrow> (nat \<times> string) list
     \<Rightarrow> TableComparison list \<times> int \<times> int \<Rightarrow> TableComparison list \<times> int \<times> int" where
  "sequentialLoop await [] vars = vars"
| "sequentialLoop await ((i, name) # rest) (comparison, totalSourceRows, matchedTables) =
     (case await i name of
        Inr tableResult \<Rightarrow>
          sequentialLoop await rest
            (comparison @ [successComparison name tableResult],
             totalSourceRows + sourceRows tableResult,
             (if status tableResult = MATCH then matchedTables + 1 else matchedTables))
      | Inl e \<Rightarrow>
          sequentialLoop await rest
            (comparison @ [failedComparison name e], totalSourceRows, matchedTables))"

text \<open>The loop \<open>for (const result of results)\<close> of the parallel branch.\<close>

fun collectResults ::
  "TableComparison list \<Rightarrow> TableComparison list \<times> int \<times> int
     \<Rightarrow> TableComparison list \<times> int \<times> int" where
  "collectResults [] vars = vars"
| "collectResults (result # rest) (comparison, totalSourceRows, matchedTables) =
     collectResults rest
       (comparison @ [result],
        totalSourceRows + sourceRows result,
        (if status result = MATCH then matchedTables + 1 else matchedTables))"

subsection \<open>The worker pool of \<open>processTablesInParallel\<close>\<close>

text \<open>
  Each of the \<open>concurrency\<close> calls of \<open>processTable\<close> is a worker. JavaScript runs one
  worker at a time and switches only at an \<open>await\<close>, so a worker is observed at the head
  of its \<open>while\<close> loop, inside the \<open>try\<close> block with the table it took (position and
  name), or after its loop ended. The shared variables are \<open>currentIndex\<close> and
  \<open>results\<close>.
\<close>

datatype worker = AtLoopHead | Processing nat string | Returned

record ParallelState =
  currentIndex :: nat
  workers :: "worker list"
  results :: "TableComparison list"

text \<open>
  One uninterrupted stretch of worker \<open>w\<close>. At the loop head it tests
  \<open>currentIndex < tableNames.length\<close> and either takes \<open>tableNames[currentIndex++]\<close> or
  leaves the loop; inside the \<open>try\<close> block the awaited verification settles and the
  worker pushes the success object or, from \<open>catch\<close>, the failure object (\<open>outcome\<close>
  gives the pushed object).
\<close>

definition workerStep ::
  "(nat \<Rightarrow> string \<Rightarrow> TableComparison) \<Rightarrow> string list \<Rightarrow> nat \<Rightarrow> ParallelState \<Rightarrow> ParallelState" where
  "workerStep outcome tableNames w s =
     (if w < length (workers s) then
        (case workers s ! w of
           AtLoopHead \<Rightarrow>
             if currentIndex s < length tableNames
               then s\<lparr>currentIndex := currentIndex s + 1,
                      workers := (workers s)[w := Processing (currentIndex s)
                                                    (tableNames ! currentIndex s)]\<rparr>
             else s\<lparr>workers := (workers s)[w := Returned]\<rparr>
         | Processing i name \<Rightarrow>
             s\<lparr>results := results s @ [outcome i name],
               workers := (workers s)[w := AtLoopHead]\<rparr>
         | Returned \<Rightarrow> s)
      else s)"

text \<open>
  The state after \<open>for (let i = 0; i < concurrency; i++) processing.push(processTable())\<close>:
  each call runs to its first \<open>await\<close>, which lies after \<open>tableNames[currentIndex++]\<close>, so
  worker \<open>i\<close> holds table \<open>i\<close> (\<open>concurrency\<close> is at most the number of tables).
\<close>

definition startWorkers :: "string list \<Rightarrow> nat \<Rightarrow> ParallelState" where
  "startWorkers tableNames concurrency =
     \<lparr>currentIndex = concurrency,
      workers = map (\<lambda>i. Processing i (tableNames ! i)) [0..<concurrency],
      results = []\<rparr>"

text \<open>
  A schedule names the worker that runs next, stretch by stretch; it stands for the
  order in which the event loop resumes the workers.
\<close>

fun runSchedule ::
  "(nat \<Rightarrow> string \<Rightarrow> TableComparison) \<Rightarrow> string list \<Rightarrow> nat list \<Rightarrow> ParallelState \<Rightarrow> ParallelState" where
  "runSchedule outcome tableNames [] s = s"
| "runSchedule outcome tableNames (w # rest) s =
     runSchedule outcome tableNames rest (workerStep outcome tableNames w s)"

definition allReturned :: "ParallelState \<Rightarrow> bool" where
  "allReturned s = list_all (\<lambda>w. w = Returned) (workers s)"

text \<open>\<open>Array.prototype.indexOf\<close>: the first position of \<open>x\<close>, or \<open>-1\<close>.\<close>

fun indexOf :: "'a list \<Rightarrow> 'a \<Rightarrow> int" where
  "indexOf [] x = - 1"
| "indexOf (y # ys) x =
     (if x = y then 0 else (let r = indexOf ys x in if r < 0 then - 1 else r + 1))"

text \<open>
  \<open>processTablesInParallel\<close> under a schedule: \<open>None\<close> when the schedule ends before
  every worker returned (\<open>Promise.all\<close> has not settled), otherwise the sorted results.
  \<open>Array.prototype.sort\<close> is stable and the comparator is the difference of the two
  \<open>indexOf\<close> keys, which is a stable sort by that key.
\<close>

definition processTablesInParallel ::
  "(nat \<Rightarrow> string \<Rightarrow> TableComparison) \<Rightarrow> VerificationConfig \<Rightarrow> string list \<Rightarrow> nat list
     \<Rightarrow> TableComparison list option" where
  "processTablesInParallel outcome cfg tableNames schedule =
     (let concurrency = min (maxConcurrentTables cfg) (length tableNames);
          s = runSchedule outcome tableNames schedule (startWorkers tableNames concurrency)
      in if allReturned s
           then Some (sort_key (\<lambda>r. indexOf tableNames (tableName r)) (results s))
         else None)"

subsection \<open>\<open>verifyMigration\<close>\<close>

datatype SummaryStatus = SUCCESS | SUMMARY_MISMATCH

text \<open>
  \<open>VerificationSummary\<close>; its field \<open>status\<close> is written \<open>summary_status\<close> and the value
  \<open>"MISMATCH"\<close> of that field \<open>SUMMARY_MISMATCH\<close>. The three counters of the summary are
  written \<open>totalTables\<close>, \<open>matched\<close>, \<open>mismatched\<close>.
\<close>

record VerificationSummary =
  summary_status :: SummaryStatus
  message :: string
  completedAt :: string
  totalTables :: int
  matched :: int
  mismatched :: int
  totalRows :: int

record VerificationResult =
  summary :: VerificationSummary
  comparison :: "TableComparison list"

text \<open>The pushed object for the table at position \<open>i\<close>: \<open>try\<close> and \<open>catch\<close> together.\<close>

definition tableOutcome ::
  "Backends \<Rightarrow> VerificationConfig \<Rightarrow> DBConnection \<Rightarrow> DBConnection \<Rightarrow> nat \<Rightarrow> string
     \<Rightarrow> TableComparison" where
  "tableOutcome backends cfg sourceConfig targetConfig i name =
     (case awaitTable backends cfg sourceConfig targetConfig i name of
        Inr tableResult \<Rightarrow> successComparison name tableResult
      | Inl e \<Rightarrow> failedComparison name e)"

text \<open>The statements after the two branches: the counts, the status and the result.\<close>

definition summarize ::
  "string list \<Rightarrow> string \<Rightarrow> TableComparison list \<times> int \<times> int \<Rightarrow> VerificationResult" where
  "summarize commonTables now vars =
     (case vars of (comparisonList, totalSourceRows, matchedTables) \<Rightarrow>
        let total = int (length commonTables);
            mismatchedTables = total - matchedTables;
            overallStatus = (if mismatchedTables = 0 then SUCCESS else SUMMARY_MISMATCH)
        in \<lparr>summary =
              \<lparr>summary_status = overallStatus,
               message = (if overallStatus = SUCCESS
                            then ''Migration Verification Completed Successfully''
                          else ''Migration Verification Found '' @ numberText mismatchedTables
                               @ '' Issue'' @ (if mismatchedTables > 1 then ''s'' else '''')),
               completedAt = now,
               totalTables = total,
               matched = matchedTables,
               mismatched = mismatchedTables,
               totalRows = totalSourceRows\<rparr>,
             comparison = comparisonList\<rparr>)"

definition verificationFailed :: "thrown \<Rightarrow> thrown" where
  "verificationFailed e = Error (''Database verification failed: '' @ messageOrUnknown e)"

text \<open>
  \<open>verifyMigration\<close>. \<open>now\<close> is the text of \<open>new Date().toISOString()\<close>, \<open>schedule\<close> the
  order in which the workers of the parallel branch run; the result is \<open>None\<close> when
  that schedule is not a whole run.
\<close>

definition verifyMigration ::
  "Backends \<Rightarrow> VerificationConfig \<Rightarrow> DBConnection \<Rightarrow> DBConnection \<Rightarrow> string \<Rightarrow> nat list
     \<Rightarrow> (thrown + VerificationResult) option" where
  "verifyMigration backends cfg sourceConfig targetConfig now schedule =
     (case testConnection backends sourceConfig of Inl e \<Rightarrow> Some (Inl (verificationFailed e))
      | Inr u1 \<Rightarrow>
     (case testConnection backends targetConfig of Inl e \<Rightarrow> Some (Inl (verificationFailed e))
      | Inr u2 \<Rightarrow>
     (case getTables backends sourceConfig of Inl e \<Rightarrow> Some (Inl (verificationFailed e))
      | Inr sourceTables \<Rightarrow>
     (case getTables backends targetConfig of Inl e \<Rightarrow> Some (Inl (verificationFailed e))
      | Inr targetTables \<Rightarrow>
        let commonTables = filter (\<lambda>t. t \<in> set targetTables) sourceTables
        in if enableParallelProcessing cfg \<and> length commonTables > 1
             then (case processTablesInParallel
                          (tableOutcome backends cfg sourceConfig targetConfig)
                          cfg commonTables schedule of
                     None \<Rightarrow> None
                   | Some sortedResults \<Rightarrow>
                       Some (Inr (summarize commonTables now
                                    (collectResults sortedResults ([], 0, 0)))))
           else Some (Inr (summarize commonTables now
                             (sequentialLoop (awaitTable backends cfg sourceConfig targetConfig)
                                (zip [0..<length commonTables] commonTables) ([], 0, 0))))))))"

section \<open>The connection pool (\<open>ConnectionPool\<close>, connection-pool.ts)\<close>

text \<open>
  A live driver connection is an object compared by identity; it is modelled by a
  number. The field \<open>type\<close> of a pooled connection is written \<open>pc_type\<close>; times are
  milliseconds as \<open>Date.now()\<close> gives them.
\<close>

record PooledConnection =
  connection :: nat
  pc_type :: DatabaseType
  lastUsed :: int
  inUse :: bool
  config :: DBConnection

text \<open>
  The pool object: \<open>pools\<close> is a \<open>Map\<close>, kept as the list of its entries in insertion
  order (its keys are distinct).
\<close>

record ConnectionPool =
  pools :: "(string \<times> PooledConnection list) list"
  activeConnections :: int
  maxConnections :: int

fun typeName :: "DatabaseType \<Rightarrow> string" where
  "typeName mysql = ''mysql''"
| "typeName postgres = ''postgres''"
| "typeName sqlite = ''sqlite''"

text \<open>An optional field inside a template literal: a missing one prints as \<open>undefined\<close>.\<close>

definition templateOptional :: "string option \<Rightarrow> string" where
  "templateOptional v = (case v of None \<Rightarrow> ''undefined'' | Some s \<Rightarrow> s)"

definition getPoolKey :: "DBConnection \<Rightarrow> string" where
  "getPoolKey c =
     typeName (db_type c) @ '':'' @ templateOptional (host c) @ '':''
       @ templateOptional (map_option decimalDigits (port c)) @ '':'' @ database c @ '':''
       @ templateOptional (user c)"

definition isConnectionValid :: "int \<Rightarrow> PooledConnection \<Rightarrow> bool" where
  "isConnectionValid now pooledConnection =
     (let maxAge = 300000; age = now - lastUsed pooledConnection in age < maxAge)"

definition getAvailableConnection :: "ConnectionPool \<Rightarrow> int \<Rightarrow> string \<Rightarrow> PooledConnection option" where
  "getAvailableConnection p now poolKey =
     (case map_of (pools p) poolKey of
        None \<Rightarrow> None
      | Some pool \<Rightarrow> find (\<lambda>conn. \<not> inUse conn \<and> isConnectionValid now conn) pool)"

text \<open>
  Assignments to the fields of the object that \<open>find\<close> returned change the first
  element of the array that satisfies the predicate.
\<close>

fun updateFirst :: "('a \<Rightarrow> bool) \<Rightarrow> ('a \<Rightarrow> 'a) \<Rightarrow> 'a list \<Rightarrow> 'a list" where
  "updateFirst P f [] = []"
| "updateFirst P f (x # xs) = (if P x then f x # xs else x # updateFirst P f xs)"

text \<open>The array stored under \<open>poolKey\<close>, changed in place.\<close>

fun updatePool ::
  "string \<Rightarrow> (PooledConnection list \<Rightarrow> PooledConnection list)
     \<Rightarrow> (string \<times> PooledConnection list) list \<Rightarrow> (string \<times> PooledConnection list) list" where
  "updatePool poolKey f [] = []"
| "updatePool poolKey f ((k, pool) # rest) =
     (if k = poolKey then (k, f pool) # rest else (k, pool) # updatePool poolKey f rest)"

text \<open>
  \<open>createConnection\<close>; \<open>driverConnect\<close> is what connecting through the driver settles
  with (a new connection, or a rejection).
\<close>

definition createConnection :: "(DBConnection \<Rightarrow> thrown + nat) \<Rightarrow> DBConnection \<Rightarrow> thrown + nat" where
  "createConnection driverConnect c =
     (if db_type c = mysql then driverConnect c
      else if db_type c = postgres then driverConnect c
      else Inl (DatabaseError (''Unsupported database type: '' @ typeName (db_type c))
                  ''INVALID_DATABASE_TYPE''))"

text \<open>
  \<open>getConnection\<close> is an \<open>async\<close> method with one \<open>await\<close>, that of
  \<open>this.createConnection(config)\<close>; other calls of the pool can run while it waits. It
  is therefore given in its two uninterrupted parts. After the first part the call has
  either settled (with a pooled connection, or with the error) or waits for the new
  connection.
\<close>

datatype acquisition = Settled "thrown + nat" | AwaitingCreate

text \<open>
  The first part, up to the \<open>await\<close>: the lookup of an available connection, the
  limit check and the start of \<open>createConnection\<close>. The \<open>catch\<close> block logs and
  rethrows.
\<close>

definition getConnectionStart ::
  "int \<Rightarrow> DBConnection \<Rightarrow> ConnectionPool \<Rightarrow> acquisition \<times> ConnectionPool" where
  "getConnectionStart now c p =
     (let poolKey = getPoolKey c in
      case getAvailableConnection p now poolKey of
        Some availableConnection \<Rightarrow>
          (Settled (Inr (connection availableConnection)),
           p\<lparr>pools := updatePool poolKey
                (updateFirst (\<lambda>conn. \<not> inUse conn \<and> isConnectionValid now conn)
                   (\<lambda>conn. conn\<lparr>inUse := True, lastUsed := now\<rparr>))
                (pools p)\<rparr>)
      | None \<Rightarrow>
          if activeConnections p \<ge> maxConnections p
            then (Settled (Inl (DatabaseError ''Connection pool exhausted'' ''RESOURCE_EXHAUSTED'')),
                  p)
          else (AwaitingCreate, p))"

text \<open>
  The second part, from the moment the \<open>await\<close> settles with \<open>created\<close>: \<open>p\<close> is the
  pool as it is then and \<open>now\<close> the time then. A rejection is rethrown; a new connection
  is pushed to the array of its key and counted.
\<close>

definition getConnectionResume ::
  "int \<Rightarrow> DBConnection \<Rightarrow> thrown + nat \<Rightarrow> ConnectionPool \<Rightarrow> (thrown + nat) \<times> ConnectionPool" where
  "getConnectionResume now c created p =
     (case created of
        Inl e \<Rightarrow> (Inl e, p)
      | Inr conn \<Rightarrow>
          let poolKey = getPoolKey c;
              pooledConnection =
                \<lparr>connection = conn, pc_type = db_type c, lastUsed = now, inUse = True,
                 config = c\<rparr>;
              withKey = (if map_of (pools p) poolKey = None
                           then pools p @ [(poolKey, [])] else pools p)
          in (Inr conn,
              p\<lparr>pools := updatePool poolKey (\<lambda>pool. pool @ [pooledConnection]) withKey,
                activeConnections := activeConnections p + 1\<rparr>))"

text \<open>
  A call of \<open>getConnection\<close> during whose \<open>await\<close> no other call of the pool runs: the
  second part follows the first on the same pool; \<open>later\<close> is the time after the
  \<open>await\<close>. A call that settles in its first part never reaches the \<open>await\<close>.
\<close>

definition getConnection ::
  "(DBConnection \<Rightarrow> thrown + nat) \<Rightarrow> int \<Rightarrow> int \<Rightarrow> DBConnection \<Rightarrow> ConnectionPool
     \<Rightarrow> (thrown + nat) \<times> ConnectionPool" where
  "getConnection driverConnect now later c p =
     (case getConnectionStart now c p of
        (Settled settled, p') \<Rightarrow> (settled, p')
      | (AwaitingCreate, p') \<Rightarrow>
          getConnectionResume later c (createConnection driverConnect c) p')"




section \<open>One table, over the string methods of the runtime\<close>

text \<open>
  \<open>String.prototype.toLowerCase\<close> and \<open>String.prototype.trim\<close> belong to the JavaScript
  runtime, not to the repository, and they act on all of Unicode. The definitions above
  fix them on ASCII text. The definitions of this section take the two methods as
  parameters instead, so that what is proved of them holds of the runtime's own methods
  on every text; a string then stands for a JavaScript string in an encoding that keeps
  different strings apart (UTF-8, say). They follow the same source lines as their
  counterparts above and agree with them for the ASCII methods.
\<close>

record StringMethods =
  lowerCaseOf :: "string \<Rightarrow> string"
  trimOf :: "string \<Rightarrow> string"

definition asciiMethods :: StringMethods where
  "asciiMethods = \<lparr>lowerCaseOf = toLowerCase, trimOf = trim\<rparr>"

definition normalizeTypeWith :: "StringMethods \<Rightarrow> string \<Rightarrow> string" where
  "normalizeTypeWith sm t = trimOf sm (lowerCaseOf sm t)"

definition areTypesCompatibleWith :: "StringMethods \<Rightarrow> string \<Rightarrow> string \<Rightarrow> thrown + bool" where
  "areTypesCompatibleWith sm sourceType targetType =
     (let normalizedSource = normalizeTypeWith sm sourceType;
          normalizedTarget = normalizeTypeWith sm targetType
      in if normalizedSource = normalizedTarget then Inr True
         else case mappingCheck ''typeMap[normalizedSource]'' normalizedSource normalizedTarget of
                Inl e \<Rightarrow> Inl e
              | Inr True \<Rightarrow> Inr True
              | Inr False \<Rightarrow>
                 (case mappingCheck ''typeMap[normalizedTarget]'' normalizedTarget normalizedSource of
                    Inl e \<Rightarrow> Inl e
                  | Inr True \<Rightarrow> Inr True
                  | Inr False \<Rightarrow> Inr (sameGroup normalizedSource normalizedTarget)))"

fun compareColumnsWith :: "StringMethods \<Rightarrow> Column list \<Rightarrow> Column list \<Rightarrow> thrown + bool" where
  "compareColumnsWith sm (source # sourceRest) (target # targetRest) =
     (if lowerCaseOf sm (col_name source) \<noteq> lowerCaseOf sm (col_name target) then Inr False
      else if nullable source \<noteq> nullable target then Inr False
      else case areTypesCompatibleWith sm (col_type source) (col_type target) of
             Inl e \<Rightarrow> Inl e
           | Inr False \<Rightarrow> Inr False
           | Inr True \<Rightarrow> compareColumnsWith sm sourceRest targetRest)"
| "compareColumnsWith sm sourceCols targetCols = Inr True"

definition compareSchemasWith :: "StringMethods \<Rightarrow> Column list \<Rightarrow> Column list \<Rightarrow> thrown + bool" where
  "compareSchemasWith sm sourceCols targetCols =
     (if length sourceCols \<noteq> length targetCols then Inr False
      else compareColumnsWith sm sourceCols targetCols)"

fun compareKeysWith :: "StringMethods \<Rightarrow> nat \<Rightarrow> row \<Rightarrow> row \<Rightarrow> string list \<Rightarrow> string option" where
  "compareKeysWith sm i sourceRow targetRow [] = None"
| "compareKeysWith sm i sourceRow targetRow (sourceKey # rest) =
     (let notFound = ''Column \"'' @ sourceKey @ ''\" not found in target row '' @ decimalDigits (i + 1)
      in case find (\<lambda>tk. lowerCaseOf sm tk = lowerCaseOf sm sourceKey) (map fst targetRow) of
        None \<Rightarrow> Some notFound
      | Some targetKey \<Rightarrow>
          if targetKey = [] then Some notFound
          else
            let sourceValue = rowGet sourceRow sourceKey;
                targetValue = rowGet targetRow targetKey
            in if sourceValue = None \<and> targetValue = None
                 then compareKeysWith sm i sourceRow targetRow rest
               else if sourceValue = None \<or> targetValue = None
                 then Some (''Null value mismatch in row '' @ decimalDigits (i + 1) @ '', column \"''
                        @ sourceKey @ ''\": source='' @ templateValue sourceValue
                        @ '', target='' @ templateValue targetValue)
               else
                 let sourceStr = trimOf sm (the sourceValue);
                     targetStr = trimOf sm (the targetValue)
                 in if sourceStr \<noteq> targetStr
                      then Some (''Value mismatch in row '' @ decimalDigits (i + 1) @ '', column \"''
                             @ sourceKey @ ''/'' @ targetKey @ ''\": source=\"'' @ sourceStr
                             @ ''\", target=\"'' @ targetStr @ ''\"'')
                    else compareKeysWith sm i sourceRow targetRow rest)"

fun compareRowsWith :: "StringMethods \<Rightarrow> nat \<Rightarrow> row list \<Rightarrow> row list \<Rightarrow> string option" where
  "compareRowsWith sm i (sourceRow # sourceRest) (targetRow # targetRest) =
     (if length sourceRow \<noteq> length targetRow
        then Some (''Column count mismatch in row '' @ decimalDigits (i + 1) @ '': source=''
               @ decimalDigits (length sourceRow) @ '', target='' @ decimalDigits (length targetRow))
      else case compareKeysWith sm i sourceRow targetRow (map fst sourceRow) of
             Some d \<Rightarrow> Some d
           | None \<Rightarrow> compareRowsWith sm (i + 1) sourceRest targetRest)"
| "compareRowsWith sm i sourceData targetData = None"

definition compareSamplesWith :: "StringMethods \<Rightarrow> row list \<Rightarrow> row list \<Rightarrow> DataMappingResult" where
  "compareSamplesWith sm sourceData targetData =
     (if length sourceData \<noteq> length targetData
        then \<lparr>isValid = False,
              details = ''Row count mismatch in sample: source='' @ decimalDigits (length sourceData)
                        @ '', target='' @ decimalDigits (length targetData)\<rparr>
      else case compareRowsWith sm 0 sourceData targetData of
             Some d \<Rightarrow> \<lparr>isValid = False, details = d\<rparr>
           | None \<Rightarrow> \<lparr>isValid = True,
                       details = ''All '' @ decimalDigits (length sourceData)
                                 @ '' sample rows match perfectly''\<rparr>)"

definition verifyDataMappingWith ::
  "StringMethods \<Rightarrow> Backends \<Rightarrow> DBConnection \<Rightarrow> DBConnection \<Rightarrow> string \<Rightarrow> nat
     \<Rightarrow> DataMappingResult \<times> sample_call list" where
  "verifyDataMappingWith sm backends sourceConfig targetConfig name sampleSize =
     (if db_type sourceConfig = sqlite \<and> db_type targetConfig = sqlite
         \<and> database sourceConfig = database targetConfig
        then (\<lparr>isValid = True,
               details = ''Identical SQLite database - same file for source and target''\<rparr>, [])
      else case getSampleData backends sourceConfig name sampleSize of
             Inl e \<Rightarrow> (dataMappingFailure e, [(sourceConfig, name, sampleSize)])
           | Inr sourceData \<Rightarrow>
              (case getSampleData backends targetConfig name sampleSize of
                 Inl e \<Rightarrow> (dataMappingFailure e,
                           [(sourceConfig, name, sampleSize), (targetConfig, name, sampleSize)])
               | Inr targetData \<Rightarrow>
                   (compareSamplesWith sm sourceData targetData,
                    [(sourceConfig, name, sampleSize), (targetConfig, name, sampleSize)])))"

definition processTableVerificationWith ::
  "StringMethods \<Rightarrow> Backends \<Rightarrow> VerificationConfig \<Rightarrow> DBConnection \<Rightarrow> DBConnection \<Rightarrow> string
     \<Rightarrow> (thrown + TableVerificationResult) \<times> sample_call list" where
  "processTableVerificationWith sm backends cfg sourceConfig targetConfig name =
     (case getTableRowCount backends sourceConfig name of Inl e \<Rightarrow> (Inl e, [])
      | Inr sourceRowCount \<Rightarrow>
     (case getTableRowCount backends targetConfig name of Inl e \<Rightarrow> (Inl e, [])
      | Inr targetRowCount \<Rightarrow>
     (case getTableSchema backends sourceConfig name of Inl e \<Rightarrow> (Inl e, [])
      | Inr sourceCols \<Rightarrow>
     (case getTableSchema backends targetConfig name of Inl e \<Rightarrow> (Inl e, [])
      | Inr targetCols \<Rightarrow>
     (case compareSchemasWith sm sourceCols targetCols of Inl e \<Rightarrow> (Inl e, [])
      | Inr schemaOk \<Rightarrow>
        let rowsMatch = (sourceRowCount = targetRowCount);
            (dataMappingResult, calls) =
               (if schemaOk \<and> rowsMatch
                  then verifyDataMappingWith sm backends sourceConfig targetConfig name
                         (sampleDataSize cfg)
                else (\<lparr>isValid = True, details = ''Not verified''\<rparr>, []))
        in (Inr \<lparr>sourceRows = sourceRowCount,
                  targetRows = targetRowCount,
                  schemaMatch = schemaOk,
                  status = (if schemaOk \<and> rowsMatch \<and> isValid dataMappingResult
                            then MATCH else MISMATCH),
                  sourceColumns = sourceCols,
                  targetColumns = targetCols,
                  dataMappingValid = isValid dataMappingResult,
                  dataMappingDetails = details dataMappingResult\<rparr>, calls))))))"

section \<open>Example data\<close>

text \<open>Example data: two SQLite descriptors of one database, and backends that answer.\<close>

definition exampleSqlite :: "string \<Rightarrow> DBConnection" where
  "exampleSqlite path =
     \<lparr>db_type = sqlite, host = None, port = None, user = None, password = None,
      database = ''shop'', filePath = Some path, fileData = None, fileId = None\<rparr>"

definition exampleColumns :: "Column list" where
  "exampleColumns =
     [\<lparr>col_name = ''id'', col_type = ''INTEGER'', nullable = False\<rparr>,
      \<lparr>col_name = ''name'', col_type = ''TEXT'', nullable = True\<rparr>]"

definition exampleBackends :: Backends where
  "exampleBackends =
     \<lparr>testConnection = (\<lambda>c. Inr ()),
      getTables = (\<lambda>c. if filePath c = Some ''/data/source.db''
                          then Inr [''customers'', ''orders'', ''staging'']
                        else Inr [''audit'', ''customers'', ''orders'']),
      getTableRowCount = (\<lambda>c t. if t = ''orders'' then Inl (DatabaseError ''no such table'' ''QUERY_ERROR'')
                                 else Inr 5),
      getTableSchema = (\<lambda>c t. Inr exampleColumns),
      getSampleData = (\<lambda>c t n. Inl (Error ''connect ECONNREFUSED'')),
      timerFiresFirst = (\<lambda>i. False)\<rparr>"


definition exampleConfig :: VerificationConfig where
  "exampleConfig =
     \<lparr>maxConcurrentTables = 5, sampleDataSize = 5, processingTimeout = 30000,
      enableParallelProcessing = True\<rparr>"

definition exampleSource :: DBConnection where
  "exampleSource = exampleSqlite ''/data/source.db''"

definition exampleTarget :: DBConnection where
  "exampleTarget = exampleSqlite ''/data/target.db''"

definition exampleMysql :: DBConnection where
  "exampleMysql =
     \<lparr>db_type = mysql, host = Some ''db1'', port = Some 3306, user = Some ''app'',
      password = Some ''secret'', database = ''shop'', filePath = None, fileData = None,
      fileId = None\<rparr>"

text \<open>A pool of at most one connection that holds connection 7, idle since time 1000.\<close>

definition examplePool :: ConnectionPool where
  "examplePool =
     \<lparr>pools = [(''mysql:db1:3306:shop:app'',
                 [\<lparr>connection = 7, pc_type = mysql, lastUsed = 1000, inUse = False,
                   config = exampleMysql\<rparr>])],
      activeConnections = 1, maxConnections = 1\<rparr>"


section \<open>Notions used in the proofs about the worker pool\<close>

text \<open>What a worker will still push: the object of the table it holds.\<close>

fun pending :: "(nat \<Rightarrow> string \<Rightarrow> TableComparison) \<Rightarrow> worker \<Rightarrow> TableComparison multiset" where
  "pending outcome (Processing i name) = {#outcome i name#}"
| "pending outcome w = {#}"

text \<open>The objects of the first \<open>k\<close> tables, in table order.\<close>

definition outcomesUpTo ::
  "(nat \<Rightarrow> string \<Rightarrow> TableComparison) \<Rightarrow> string list \<Rightarrow> nat \<Rightarrow> TableComparison list" where
  "outcomesUpTo outcome tableNames k = map (\<lambda>i. outcome i (tableNames ! i)) [0..<k]"

text \<open>A bound on the stretches the workers can still run.\<close>

fun weight :: "worker \<Rightarrow> nat" where
  "weight AtLoopHead = 1"
| "weight (Processing i name) = 2"
| "weight Returned = 0"

definition stepsLeft :: "string list \<Rightarrow> ParallelState \<Rightarrow> nat" where
  "stepsLeft tableNames s =
     3 * (length tableNames - currentIndex s) + sum_list (map weight (workers s))"

text \<open>
  What holds of the shared variables between any two stretches: the objects pushed and
  the objects still to be pushed by the busy workers are those of the tables taken so
  far, and a worker has returned only when no table is left.
\<close>

definition poolInvariant ::
  "(nat \<Rightarrow> string \<Rightarrow> TableComparison) \<Rightarrow> string list \<Rightarrow> nat \<Rightarrow> ParallelState \<Rightarrow> bool" where
  "poolInvariant outcome tableNames concurrency s \<longleftrightarrow>
     length (workers s) = concurrency
     \<and> currentIndex s \<le> length tableNames
     \<and> mset (results s) + sum_list (map (pending outcome) (workers s))
         = mset (outcomesUpTo outcome tableNames (currentIndex s))
     \<and> (Returned \<in> set (workers s) \<longrightarrow> currentIndex s = length tableNames)"

text \<open>
  Equal table names stand next to each other in the list: the positions of first
  occurrence never decrease. This holds of a list without repetition.
\<close>

definition contiguousNames :: "string list \<Rightarrow> bool" where
  "contiguousNames tableNames = sorted (map (indexOf tableNames) tableNames)"

text \<open>Two positions that hold the same table name get the same object.\<close>

definition sameNameSameOutcome :: "(nat \<Rightarrow> string \<Rightarrow> TableComparison) \<Rightarrow> string list \<Rightarrow> bool" where
  "sameNameSameOutcome outcome tableNames \<longleftrightarrow>
     (\<forall>i < length tableNames. \<forall>j < length tableNames.
        tableNames ! i = tableNames ! j \<longrightarrow> outcome i (tableNames ! i) = outcome j (tableNames ! j))"

section \<open>Proofs: type compatibility\<close>

lemma toLowerCase_char_idem: "toLowerCase_char (toLowerCase_char c) = toLowerCase_char c"
  by (auto simp: toLowerCase_char_def upperChars_def lowerChars_def split: option.splits if_splits)

lemma set_trim: "c \<in> set (trim s) \<Longrightarrow> c \<in> set s"
  unfolding trim_def by (auto dest!: set_dropWhileD)

lemma toLowerCase_normalizeType: "toLowerCase (normalizeType s) = normalizeType s"
proof -
  have "toLowerCase_char c = c" if "c \<in> set (normalizeType s)" for c
  proof -
    from that have "c \<in> set (toLowerCase s)"
      unfolding normalizeType_def by (rule set_trim)
    then show ?thesis by (auto simp: toLowerCase_def toLowerCase_char_idem)
  qed
  then show ?thesis unfolding toLowerCase_def by (simp add: map_idI)
qed

lemma areTypesCompatible_normalized_equal:
  "normalizeType a = normalizeType b \<Longrightarrow> areTypesCompatible a b = Inr True"
  by (simp add: areTypesCompatible_def)

lemma areTypesCompatible_reflexive: "areTypesCompatible t t = Inr True"
  by (simp add: areTypesCompatible_def)

lemma sameGroup_commute: "sameGroup a b = sameGroup b a"
  unfolding sameGroup_def list_ex_iff by auto

lemma accepted_not_inherited_closed:
  "\<forall>(k, ts) \<in> set typeMap. \<forall>t \<in> set ts. t \<notin> set objectPrototypeKeys"
  by code_simp

lemma accepted_not_inherited:
  assumes "typeMapGet k = OwnArray ts" and "t \<in> set ts"
  shows "typeMapGet t \<noteq> Inherited"
proof -
  from assms(1) have "(k, ts) \<in> set typeMap"
    by (auto simp: typeMapGet_def split: option.splits if_splits dest: map_of_SomeD)
  with assms(2) accepted_not_inherited_closed have "t \<notin> set objectPrototypeKeys" by blast
  then show ?thesis by (auto simp: typeMapGet_def split: option.splits)
qed

lemma areTypesCompatible_symmetric:
  "areTypesCompatible a b = Inr v \<longleftrightarrow> areTypesCompatible b a = Inr v"
  unfolding areTypesCompatible_def Let_def mappingCheck_def
  using sameGroup_commute[of "normalizeType a" "normalizeType b"]
        accepted_not_inherited[of "normalizeType a" _ "normalizeType b"]
        accepted_not_inherited[of "normalizeType b" _ "normalizeType a"]
  by (auto split: sum.splits bool.splits property_value.splits)

lemma areTypesCompatible_throws_iff:
  "(\<exists>e. areTypesCompatible a b = Inl e) \<longleftrightarrow>
     normalizeType a \<noteq> normalizeType b \<and>
     (typeMapGet (normalizeType a) = Inherited \<or> typeMapGet (normalizeType b) = Inherited)"
  unfolding areTypesCompatible_def Let_def mappingCheck_def
  using accepted_not_inherited[of "normalizeType a" _ "normalizeType b"]
        accepted_not_inherited[of "normalizeType b" _ "normalizeType a"]
  by (auto split: sum.splits bool.splits property_value.splits)

lemma lowercase_prototype_keys:
  "filter (\<lambda>k. toLowerCase k = k) objectPrototypeKeys = [''constructor'', ''__proto__'']"
  by code_simp

lemma typeMapGet_Inherited_normalized:
  assumes "typeMapGet (normalizeType a) = Inherited"
  shows "normalizeType a = ''constructor'' \<or> normalizeType a = ''__proto__''"
proof -
  from assms have "normalizeType a \<in> set objectPrototypeKeys"
    by (auto simp: typeMapGet_def split: option.splits if_splits)
  then have "normalizeType a \<in> set (filter (\<lambda>k. toLowerCase k = k) objectPrototypeKeys)"
    by (simp add: toLowerCase_normalizeType)
  then show ?thesis unfolding lowercase_prototype_keys by simp
qed

lemma areTypesCompatible_total_elsewhere:
  assumes "normalizeType a \<notin> {''constructor'', ''__proto__''}"
    and "normalizeType b \<notin> {''constructor'', ''__proto__''}"
  shows "\<exists>v. areTypesCompatible a b = Inr v"
proof (cases "areTypesCompatible a b")
  case (Inl e)
  then have "typeMapGet (normalizeType a) = Inherited \<or> typeMapGet (normalizeType b) = Inherited"
    using areTypesCompatible_throws_iff[of a b] by blast
  with assms show ?thesis using typeMapGet_Inherited_normalized by blast
next
  case (Inr v)
  then show ?thesis by blast
qed

lemma uppercase_keys:
  "map fst (filter (\<lambda>(k, ts). toLowerCase k \<noteq> k) typeMap)
     = [''TEXT'', ''INTEGER'', ''REAL'', ''NUMERIC'', ''BLOB'']"
  by code_simp

lemma uppercase_entries_closed:
  "\<forall>(k, ts) \<in> set typeMap. toLowerCase k \<noteq> k \<longrightarrow>
     (\<forall>t \<in> set ts. areTypesCompatible k t = Inr True)"
  by code_simp

text \<open>
  Claim C3. The claim says that \<open>areTypesCompatible\<close> never throws for two non-empty
  strings. For the type name \<open>constructor\<close> the read \<open>typeMap[normalizedSource]\<close> finds
  the inherited property of \<open>Object.prototype\<close>, the guard passes, and the call of
  \<open>includes\<close> raises a \<open>TypeError\<close>.
\<close>

theorem areTypesCompatible_throws_for_constructor:
  "areTypesCompatible ''constructor'' ''int''
     = Inl (TypeError ''typeMap[normalizedSource].includes is not a function'')"
  by code_simp

text \<open>
  Claim C4. For every entry of \<open>typeMap\<close> whose key has an upper-case letter (the keys
  \<open>TEXT\<close>, \<open>INTEGER\<close>, \<open>REAL\<close>, \<open>NUMERIC\<close>, \<open>BLOB\<close>) and every type name \<open>t\<close> of its accepted
  list, \<open>areTypesCompatible key t\<close> returns true, although no normalized type name
  equals such a key, so the direct lookup never reads that entry.
\<close>

theorem uppercase_catalog_keys_compatible:
  assumes "(key, accepted) \<in> set typeMap" and "toLowerCase key \<noteq> key"
  shows "normalizeType s \<noteq> key \<and> (\<forall>t \<in> set accepted. areTypesCompatible key t = Inr True)"
proof
  show "normalizeType s \<noteq> key"
    using assms(2) toLowerCase_normalizeType[of s] by auto
  show "\<forall>t \<in> set accepted. areTypesCompatible key t = Inr True"
    using assms uppercase_entries_closed by blast
qed

theorem uppercase_catalog_keys_compatible_witness:
  "(''TEXT'', [''text'', ''character varying'', ''varchar'', ''char'']) \<in> set typeMap
   \<and> toLowerCase ''TEXT'' \<noteq> ''TEXT''
   \<and> normalizeType ''Text'' \<noteq> ''TEXT''
   \<and> areTypesCompatible ''TEXT'' ''char'' = Inr True"
proof -
  have h1: "(''TEXT'', [''text'', ''character varying'', ''varchar'', ''char'']) \<in> set typeMap"
    by (simp add: typeMap_def)
  have h2: "toLowerCase ''TEXT'' \<noteq> ''TEXT''"
    by code_simp
  from uppercase_catalog_keys_compatible[OF h1 h2, of "''Text''"] h1 h2
  show ?thesis by simp
qed

section \<open>Proofs: schema comparison\<close>

lemma compareSchemas_length_differs:
  "length s \<noteq> length t \<Longrightarrow> compareSchemas s t = Inr False"
  by (simp add: compareSchemas_def)

lemma compareSchemas_True_iff:
  "compareSchemas s t = Inr True \<longleftrightarrow>
     length s = length t \<and>
     (\<forall>i < length s. toLowerCase (col_name (s ! i)) = toLowerCase (col_name (t ! i)) \<and>
         nullable (s ! i) = nullable (t ! i) \<and>
         areTypesCompatible (col_type (s ! i)) (col_type (t ! i)) = Inr True)"
proof -
  have "length s = length t \<Longrightarrow> compareColumns s t = Inr True \<longleftrightarrow>
     (\<forall>i < length s. toLowerCase (col_name (s ! i)) = toLowerCase (col_name (t ! i)) \<and>
         nullable (s ! i) = nullable (t ! i) \<and>
         areTypesCompatible (col_type (s ! i)) (col_type (t ! i)) = Inr True)"
  proof (induction s t rule: list_induct2)
    case Nil
    then show ?case by simp
  next
    case (Cons x xs y ys)
    then show ?case
      by (auto simp: All_less_Suc2 split: sum.splits bool.splits)
  qed
  then show ?thesis by (auto simp: compareSchemas_def)
qed

lemma compareColumns_throws:
  "compareColumns s t = Inl e \<Longrightarrow>
     \<exists>i. i < length s \<and> i < length t \<and> areTypesCompatible (col_type (s ! i)) (col_type (t ! i)) = Inl e"
proof (induction s t rule: compareColumns.induct)
  case (1 source sourceRest target targetRest)
  show ?case
  proof (cases "areTypesCompatible (col_type source) (col_type target)")
    case (Inl e')
    with "1.prems" have "e' = e" by (auto split: if_splits)
    with Inl show ?thesis by (intro exI[of _ 0]) simp
  next
    case (Inr b)
    with "1.prems" have b: "b" and rest: "compareColumns sourceRest targetRest = Inl e"
      and n: "toLowerCase (col_name source) = toLowerCase (col_name target)"
      and nl: "nullable source = nullable target"
      by (auto split: if_splits bool.splits)
    from "1.IH"[OF _ _ _ _ rest] n nl Inr b obtain i where
      "i < length sourceRest" "i < length targetRest"
      "areTypesCompatible (col_type (sourceRest ! i)) (col_type (targetRest ! i)) = Inl e"
      by auto
    then show ?thesis by (intro exI[of _ "Suc i"]) simp
  qed
qed simp_all

lemma compareSchemas_returns_unless_type_check_throws:
  assumes "\<forall>i < length s. \<forall>e. areTypesCompatible (col_type (s ! i)) (col_type (t ! i)) \<noteq> Inl e"
  shows "compareSchemas s t = Inr (length s = length t \<and>
     (\<forall>i < length s. toLowerCase (col_name (s ! i)) = toLowerCase (col_name (t ! i)) \<and>
         nullable (s ! i) = nullable (t ! i) \<and>
         areTypesCompatible (col_type (s ! i)) (col_type (t ! i)) = Inr True))"
proof (cases "compareSchemas s t")
  case (Inl e)
  then have "compareColumns s t = Inl e"
    by (auto simp: compareSchemas_def split: if_splits)
  from compareColumns_throws[OF this] assms show ?thesis by blast
next
  case (Inr b)
  with compareSchemas_True_iff[of s t] show ?thesis by (cases b) auto
qed

text \<open>
  Claim C5. The claim says that \<open>compareSchemas\<close> returns false whenever the names
  differ at some position. Here the names differ at the second position (\<open>b\<close> against
  \<open>c\<close>), but the type check of the first position raises the \<open>TypeError\<close> of claim C3,
  so \<open>compareSchemas\<close> returns nothing.
\<close>

theorem compareSchemas_throws_before_name_mismatch:
  "compareSchemas
     [\<lparr>col_name = ''a'', col_type = ''constructor'', nullable = True\<rparr>,
      \<lparr>col_name = ''b'', col_type = ''int'', nullable = True\<rparr>]
     [\<lparr>col_name = ''a'', col_type = ''int'', nullable = True\<rparr>,
      \<lparr>col_name = ''c'', col_type = ''int'', nullable = True\<rparr>]
   = Inl (TypeError ''typeMap[normalizedSource].includes is not a function'')"
  by code_simp

section \<open>Proofs: sample comparison and the verdict of one table\<close>

text \<open>
  Claim C9. When both descriptors are of the SQLite kind and name the same database,
  \<open>verifyDataMapping\<close> returns the valid result at once and makes no call of
  \<open>getSampleData\<close>, whatever the backends would answer.
\<close>

theorem verifyDataMapping_same_sqlite_database:
  assumes "db_type sourceConfig = sqlite" and "db_type targetConfig = sqlite"
    and "database sourceConfig = database targetConfig"
  shows "verifyDataMapping backends sourceConfig targetConfig name sampleSize
           = (\<lparr>isValid = True,
               details = ''Identical SQLite database - same file for source and target''\<rparr>, [])"
  using assms by (simp add: verifyDataMapping_def)

theorem verifyDataMapping_same_sqlite_database_witness:
  "db_type (exampleSqlite ''/data/source.db'') = sqlite
   \<and> db_type (exampleSqlite ''/data/target.db'') = sqlite
   \<and> database (exampleSqlite ''/data/source.db'') = database (exampleSqlite ''/data/target.db'')
   \<and> verifyDataMapping exampleBackends (exampleSqlite ''/data/source.db'')
        (exampleSqlite ''/data/target.db'') ''customers'' 5
      = (\<lparr>isValid = True,
          details = ''Identical SQLite database - same file for source and target''\<rparr>, [])"
proof -
  have h1: "db_type (exampleSqlite ''/data/source.db'') = sqlite"
    and h2: "db_type (exampleSqlite ''/data/target.db'') = sqlite"
    and h3: "database (exampleSqlite ''/data/source.db'') = database (exampleSqlite ''/data/target.db'')"
    by (simp_all add: exampleSqlite_def)
  from verifyDataMapping_same_sqlite_database[OF h1 h2 h3, of exampleBackends "''customers''" 5]
    h1 h2 h3
  show ?thesis by simp
qed

lemma verifyDataMapping_calls_otherwise:
  assumes "\<not> (db_type sourceConfig = sqlite \<and> db_type targetConfig = sqlite
              \<and> database sourceConfig = database targetConfig)"
  shows "snd (verifyDataMapping backends sourceConfig targetConfig name sampleSize) \<noteq> []"
  using assms by (auto simp: verifyDataMapping_def split: sum.splits)

lemma processTableVerification_returns:
  assumes "getTableRowCount backends sourceConfig name = Inr sr"
    and "getTableRowCount backends targetConfig name = Inr tr"
    and "getTableSchema backends sourceConfig name = Inr sc"
    and "getTableSchema backends targetConfig name = Inr tc"
    and "compareSchemas sc tc = Inr b"
  shows "\<exists>r calls. processTableVerification backends cfg sourceConfig targetConfig name = (Inr r, calls)"
  using assms by (simp add: processTableVerification_def Let_def split: prod.splits)


subsection \<open>The two sets of definitions agree for the ASCII methods\<close>

lemma normalizeTypeWith_ascii: "normalizeTypeWith asciiMethods t = normalizeType t"
  by (simp add: normalizeTypeWith_def normalizeType_def asciiMethods_def)

lemma areTypesCompatibleWith_ascii:
  "areTypesCompatibleWith asciiMethods a b = areTypesCompatible a b"
  by (simp only: areTypesCompatibleWith_def areTypesCompatible_def normalizeTypeWith_ascii)

lemma compareColumnsWith_ascii:
  "compareColumnsWith asciiMethods s t = compareColumns s t"
proof (induction s t rule: compareColumns.induct)
  case (1 source sourceRest target targetRest)
  have l: "lowerCaseOf asciiMethods = toLowerCase" by (simp add: asciiMethods_def)
  show ?case
  proof (cases "areTypesCompatible (col_type source) (col_type target)")
    case (Inl e)
    then show ?thesis by (simp add: l areTypesCompatibleWith_ascii)
  next
    case (Inr b)
    with 1 show ?thesis by (cases b) (simp_all add: l areTypesCompatibleWith_ascii)
  qed
qed simp_all

lemma compareSchemasWith_ascii:
  "compareSchemasWith asciiMethods s t = compareSchemas s t"
  by (simp only: compareSchemasWith_def compareSchemas_def compareColumnsWith_ascii)

lemma asciiMethods_sel:
  "lowerCaseOf asciiMethods = toLowerCase" "trimOf asciiMethods = trim"
  by (simp_all add: asciiMethods_def)

lemma compareKeysWith_ascii:
  "compareKeysWith asciiMethods i sourceRow targetRow ks = compareKeys i sourceRow targetRow ks"
proof (induction ks)
  case Nil
  show ?case by (simp only: compareKeysWith.simps compareKeys.simps)
next
  case (Cons k ks)
  show ?case
    by (simp only: compareKeysWith.simps compareKeys.simps asciiMethods_sel Cons.IH)
qed

lemma compareRowsWith_ascii:
  "compareRowsWith asciiMethods i ss ts = compareRows i ss ts"
proof (induction i ss ts rule: compareRows.induct)
  case (1 i sourceRow sourceRest targetRow targetRest)
  show ?case
  proof (cases "length sourceRow \<noteq> length targetRow")
    case True
    then show ?thesis by (simp only: compareRowsWith.simps compareRows.simps simp_thms if_True)
  next
    case False
    show ?thesis
    proof (cases "compareKeys i sourceRow targetRow (map fst sourceRow)")
      case None
      from "1.IH"[OF False None] False None show ?thesis
        by (simp only: compareRowsWith.simps compareRows.simps compareKeysWith_ascii
              simp_thms if_False option.case)
    next
      case (Some d)
      with False show ?thesis
        by (simp only: compareRowsWith.simps compareRows.simps compareKeysWith_ascii
              simp_thms if_False option.case)
    qed
  qed
qed (simp_all only: compareRowsWith.simps compareRows.simps)

lemma compareSamplesWith_ascii:
  "compareSamplesWith asciiMethods ss ts = compareSamples ss ts"
  by (simp only: compareSamplesWith_def compareSamples_def compareRowsWith_ascii)

lemma verifyDataMappingWith_ascii:
  "verifyDataMappingWith asciiMethods backends sourceConfig targetConfig name n
     = verifyDataMapping backends sourceConfig targetConfig name n"
  by (simp only: verifyDataMappingWith_def verifyDataMapping_def compareSamplesWith_ascii)

lemma processTableVerificationWith_ascii:
  "processTableVerificationWith asciiMethods backends cfg sourceConfig targetConfig name
     = processTableVerification backends cfg sourceConfig targetConfig name"
  by (simp only: processTableVerificationWith_def processTableVerification_def
        compareSchemasWith_ascii verifyDataMappingWith_ascii)

lemma compareSchemasWith_True_iff:
  "compareSchemasWith sm s t = Inr True \<longleftrightarrow>
     length s = length t \<and>
     (\<forall>i < length s. lowerCaseOf sm (col_name (s ! i)) = lowerCaseOf sm (col_name (t ! i)) \<and>
         nullable (s ! i) = nullable (t ! i) \<and>
         areTypesCompatibleWith sm (col_type (s ! i)) (col_type (t ! i)) = Inr True)"
proof -
  have "length s = length t \<Longrightarrow> compareColumnsWith sm s t = Inr True \<longleftrightarrow>
     (\<forall>i < length s. lowerCaseOf sm (col_name (s ! i)) = lowerCaseOf sm (col_name (t ! i)) \<and>
         nullable (s ! i) = nullable (t ! i) \<and>
         areTypesCompatibleWith sm (col_type (s ! i)) (col_type (t ! i)) = Inr True)"
  proof (induction s t rule: list_induct2)
    case Nil
    then show ?case by simp
  next
    case (Cons x xs y ys)
    then show ?case
      by (auto simp: All_less_Suc2 split: sum.splits bool.splits)
  qed
  then show ?thesis by (auto simp: compareSchemasWith_def)
qed



section \<open>Proofs: the worker pool\<close>

lemma sum_list_map_update:
  fixes f :: "'a \<Rightarrow> 'b::comm_monoid_add"
  shows "w < length ws \<Longrightarrow>
     sum_list (map f (ws[w := y])) + f (ws ! w) = sum_list (map f ws) + f y"
proof (induction ws arbitrary: w)
  case Nil
  then show ?case by simp
next
  case (Cons x xs)
  show ?case
  proof (cases w)
    case 0
    then show ?thesis by (simp add: ac_simps)
  next
    case (Suc v)
    with Cons.prems have "v < length xs" by simp
    from Cons.IH[OF this] have
      "f x + (sum_list (map f (xs[v := y])) + f (xs ! v)) = f x + (sum_list (map f xs) + f y)"
      by simp
    with Suc show ?thesis by (simp add: add.assoc)
  qed
qed

lemma outcomesUpTo_Suc:
  "outcomesUpTo outcome tableNames (Suc k)
     = outcomesUpTo outcome tableNames k @ [outcome k (tableNames ! k)]"
  by (simp add: outcomesUpTo_def)

lemma outcomesUpTo_0: "outcomesUpTo outcome tableNames 0 = []"
  by (simp add: outcomesUpTo_def)

lemma pending_start:
  "sum_list (map (pending outcome) (map (\<lambda>i. Processing i (tableNames ! i)) [0..<c]))
     = mset (outcomesUpTo outcome tableNames c)"
  by (induction c) (simp_all add: outcomesUpTo_Suc outcomesUpTo_0)

lemma poolInvariant_start:
  "concurrency \<le> length tableNames \<Longrightarrow>
     poolInvariant outcome tableNames concurrency (startWorkers tableNames concurrency)"
  unfolding poolInvariant_def startWorkers_def
  using pending_start[of outcome tableNames concurrency]
  by auto

lemma poolInvariant_take:
  assumes inv: "poolInvariant outcome tableNames concurrency s"
    and w: "w < length (workers s)" and at: "workers s ! w = AtLoopHead"
    and less: "currentIndex s < length tableNames"
  shows "poolInvariant outcome tableNames concurrency
           (s\<lparr>currentIndex := currentIndex s + 1,
              workers := (workers s)[w := Processing (currentIndex s)
                                            (tableNames ! currentIndex s)]\<rparr>)"
proof -
  let ?o = "outcome (currentIndex s) (tableNames ! currentIndex s)"
  let ?ws = "(workers s)[w := Processing (currentIndex s) (tableNames ! currentIndex s)]"
  have upd: "sum_list (map (pending outcome) ?ws)
                 = sum_list (map (pending outcome) (workers s)) + {#?o#}"
    using sum_list_map_update[OF w, of "pending outcome"
            "Processing (currentIndex s) (tableNames ! currentIndex s)"] at
    by simp
  from inv have m: "mset (results s) + sum_list (map (pending outcome) (workers s))
         = mset (outcomesUpTo outcome tableNames (currentIndex s))"
    by (simp add: poolInvariant_def)
  have m': "mset (results s) + sum_list (map (pending outcome) ?ws)
         = mset (outcomesUpTo outcome tableNames (Suc (currentIndex s)))"
    unfolding upd outcomesUpTo_Suc using m by simp
  from inv less have "Returned \<notin> set (workers s)"
    by (auto simp: poolInvariant_def)
  then have nr: "Returned \<notin> set ?ws"
    using set_update_subset_insert[of "workers s" w] by fastforce
  from inv have len: "length (workers s) = concurrency" by (simp add: poolInvariant_def)
  show ?thesis
    unfolding poolInvariant_def using m' nr len less by simp
qed

lemma poolInvariant_leave:
  assumes inv: "poolInvariant outcome tableNames concurrency s"
    and w: "w < length (workers s)" and at: "workers s ! w = AtLoopHead"
    and ge: "\<not> currentIndex s < length tableNames"
  shows "poolInvariant outcome tableNames concurrency (s\<lparr>workers := (workers s)[w := Returned]\<rparr>)"
proof -
  have upd: "sum_list (map (pending outcome) ((workers s)[w := Returned]))
                 = sum_list (map (pending outcome) (workers s))"
    using sum_list_map_update[OF w, of "pending outcome" Returned] at
    by simp
  from inv ge have "currentIndex s = length tableNames" by (simp add: poolInvariant_def)
  with inv upd show ?thesis
    unfolding poolInvariant_def by simp
qed

lemma poolInvariant_push:
  assumes inv: "poolInvariant outcome tableNames concurrency s"
    and w: "w < length (workers s)" and at: "workers s ! w = Processing i name"
  shows "poolInvariant outcome tableNames concurrency
           (s\<lparr>results := results s @ [outcome i name],
              workers := (workers s)[w := AtLoopHead]\<rparr>)"
proof -
  let ?ws = "(workers s)[w := AtLoopHead]"
  have upd: "sum_list (map (pending outcome) ?ws) + {#outcome i name#}
               = sum_list (map (pending outcome) (workers s))"
    using sum_list_map_update[OF w, of "pending outcome" AtLoopHead] at
    by simp
  from inv have m: "mset (results s) + sum_list (map (pending outcome) (workers s))
         = mset (outcomesUpTo outcome tableNames (currentIndex s))"
    by (simp add: poolInvariant_def)
  have "mset (results s @ [outcome i name]) + sum_list (map (pending outcome) ?ws)
         = mset (results s) + (sum_list (map (pending outcome) ?ws) + {#outcome i name#})"
    by simp
  also have "\<dots> = mset (outcomesUpTo outcome tableNames (currentIndex s))"
    unfolding upd by (rule m)
  finally have m': "mset (results s @ [outcome i name]) + sum_list (map (pending outcome) ?ws)
         = mset (outcomesUpTo outcome tableNames (currentIndex s))" .
  have ret: "Returned \<in> set ?ws \<Longrightarrow> Returned \<in> set (workers s)"
    using set_update_subset_insert[of "workers s" w AtLoopHead] by auto
  from inv have len: "length (workers s) = concurrency"
    and le: "currentIndex s \<le> length tableNames"
    and r: "Returned \<in> set (workers s) \<longrightarrow> currentIndex s = length tableNames"
    by (simp_all add: poolInvariant_def)
  show ?thesis
    unfolding poolInvariant_def using m' ret len le r by auto
qed

lemma poolInvariant_step:
  assumes "poolInvariant outcome tableNames concurrency s"
  shows "poolInvariant outcome tableNames concurrency (workerStep outcome tableNames w s)"
proof (cases "w < length (workers s)")
  case False
  with assms show ?thesis by (simp add: workerStep_def)
next
  case True
  show ?thesis
  proof (cases "workers s ! w")
    case AtLoopHead
    with True poolInvariant_take[OF assms True AtLoopHead]
         poolInvariant_leave[OF assms True AtLoopHead]
    show ?thesis by (simp add: workerStep_def)
  next
    case (Processing i name)
    with True poolInvariant_push[OF assms True Processing]
    show ?thesis by (simp add: workerStep_def)
  next
    case Returned
    with assms True show ?thesis by (simp add: workerStep_def)
  qed
qed

lemma poolInvariant_run:
  "poolInvariant outcome tableNames concurrency s \<Longrightarrow>
     poolInvariant outcome tableNames concurrency (runSchedule outcome tableNames schedule s)"
  by (induction schedule arbitrary: s) (simp_all add: poolInvariant_step)

lemma pending_allReturned:
  "list_all (\<lambda>w. w = Returned) ws \<Longrightarrow> sum_list (map (pending outcome) ws) = {#}"
  by (induction ws) auto

lemma results_when_allReturned:
  assumes inv: "poolInvariant outcome tableNames concurrency s"
    and fin: "allReturned s"
    and c: "concurrency = min maxc (length tableNames)" and maxc: "1 \<le> maxc"
  shows "mset (results s) = mset (outcomesUpTo outcome tableNames (length tableNames))"
proof -
  from fin have p: "sum_list (map (pending outcome) (workers s)) = {#}"
    unfolding allReturned_def by (rule pending_allReturned)
  have "currentIndex s = length tableNames"
  proof (cases "tableNames = []")
    case True
    with inv show ?thesis by (simp add: poolInvariant_def)
  next
    case False
    with c maxc have "0 < concurrency" by (cases tableNames) auto
    with inv have "workers s \<noteq> []" by (auto simp: poolInvariant_def)
    with fin have "Returned \<in> set (workers s)"
      unfolding allReturned_def by (cases "workers s") auto
    with inv show ?thesis by (simp add: poolInvariant_def)
  qed
  with inv p show ?thesis by (simp add: poolInvariant_def)
qed

subsection \<open>Every schedule can be completed\<close>

lemma stepsLeft_decreases:
  assumes "w < length (workers s)" and "workers s ! w \<noteq> Returned"
  shows "stepsLeft tableNames (workerStep outcome tableNames w s) < stepsLeft tableNames s"
proof -
  have upd: "sum_list (map weight ((workers s)[w := y])) + weight (workers s ! w)
             = sum_list (map weight (workers s)) + weight y" for y
    using sum_list_map_update[OF assms(1), of weight y] .
  show ?thesis
  proof (cases "workers s ! w")
    case AtLoopHead
    show ?thesis
    proof (cases "currentIndex s < length tableNames")
      case True
      then have "3 * (length tableNames - Suc (currentIndex s)) + 3
                   = 3 * (length tableNames - currentIndex s)"
        by arith
      with True AtLoopHead assms(1)
           upd[of "Processing (currentIndex s) (tableNames ! currentIndex s)"]
      show ?thesis
        by (simp add: stepsLeft_def workerStep_def)
    next
      case False
      with AtLoopHead assms(1) upd[of Returned] show ?thesis
        by (simp add: stepsLeft_def workerStep_def)
    qed
  next
    case (Processing i name)
    with assms upd[of AtLoopHead] show ?thesis
      by (simp add: stepsLeft_def workerStep_def)
  next
    case Returned
    with assms show ?thesis by simp
  qed
qed

lemma schedule_exists:
  "\<exists>schedule. allReturned (runSchedule outcome tableNames schedule s)"
proof (induction "stepsLeft tableNames s" arbitrary: s rule: less_induct)
  case less
  show ?case
  proof (cases "allReturned s")
    case True
    then have "allReturned (runSchedule outcome tableNames [] s)" by simp
    then show ?thesis by blast
  next
    case False
    then obtain w where w: "w < length (workers s)" "workers s ! w \<noteq> Returned"
      unfolding allReturned_def list_all_length by blast
    from less[OF stepsLeft_decreases[OF w]] obtain schedule where
      "allReturned (runSchedule outcome tableNames schedule (workerStep outcome tableNames w s))"
      by blast
    then have "allReturned (runSchedule outcome tableNames (w # schedule) s)" by simp
    then show ?thesis by blast
  qed
qed

subsection \<open>Sorting by position of first occurrence\<close>

lemma indexOf_member:
  "x \<in> set xs \<Longrightarrow>
     0 \<le> indexOf xs x \<and> nat (indexOf xs x) < length xs \<and> xs ! nat (indexOf xs x) = x"
proof (induction xs)
  case Nil
  then show ?case by simp
next
  case (Cons y ys)
  show ?case
  proof (cases "x = y")
    case True
    then show ?thesis by simp
  next
    case False
    with Cons.prems have "x \<in> set ys" by simp
    from Cons.IH[OF this] False show ?thesis
      by (simp add: Let_def nat_add_distrib)
  qed
qed

lemma indexOf_absent: "x \<notin> set xs \<Longrightarrow> indexOf xs x = - 1"
  by (induction xs) (simp_all add: Let_def)

lemma indexOf_inj:
  assumes "x \<in> set xs" and "indexOf xs x = indexOf xs y"
  shows "x = y"
proof (cases "y \<in> set xs")
  case True
  from indexOf_member[OF assms(1)] indexOf_member[OF True] assms(2)
  show ?thesis by metis
next
  case False
  from indexOf_member[OF assms(1)] indexOf_absent[OF False] assms(2)
  show ?thesis by simp
qed

lemma indexOf_distinct:
  "distinct xs \<Longrightarrow> i < length xs \<Longrightarrow> indexOf xs (xs ! i) = int i"
proof (induction xs arbitrary: i)
  case Nil
  then show ?case by simp
next
  case (Cons y ys)
  show ?case
  proof (cases i)
    case 0
    then show ?thesis by simp
  next
    case (Suc j)
    with Cons.prems have j: "j < length ys" and d: "distinct ys" and ny: "y \<notin> set ys"
      by simp_all
    from j ny have "ys ! j \<noteq> y" by (metis nth_mem)
    with Cons.IH[OF d j] Suc show ?thesis by (simp add: Let_def)
  qed
qed

lemma distinct_contiguousNames:
  assumes "distinct tableNames"
  shows "contiguousNames tableNames"
proof -
  have "map (indexOf tableNames) tableNames = map int [0..<length tableNames]"
    by (rule nth_equalityI) (simp_all add: indexOf_distinct[OF assms])
  moreover have "sorted (map int [0..<length tableNames])"
    by (simp add: sorted_iff_nth_mono)
  ultimately show ?thesis by (simp only: contiguousNames_def)
qed

lemma map_tableName_outcomesUpTo:
  assumes "\<And>i name. tableName (outcome i name) = name"
  shows "map tableName (outcomesUpTo outcome tableNames (length tableNames)) = tableNames"
proof -
  have "map tableName (outcomesUpTo outcome tableNames (length tableNames))
          = map (\<lambda>i. tableNames ! i) [0..<length tableNames]"
    by (simp add: outcomesUpTo_def assms)
  then show ?thesis by (simp add: map_nth)
qed

lemma keys_of_outcomesUpTo:
  assumes "\<And>i name. tableName (outcome i name) = name"
  shows "map (\<lambda>r. indexOf tableNames (tableName r))
            (outcomesUpTo outcome tableNames (length tableNames))
         = map (indexOf tableNames) tableNames"
proof -
  have "map (\<lambda>r. indexOf tableNames (tableName r))
            (outcomesUpTo outcome tableNames (length tableNames))
        = map (indexOf tableNames)
            (map tableName (outcomesUpTo outcome tableNames (length tableNames)))"
    by simp
  then show ?thesis by (simp only: map_tableName_outcomesUpTo[OF assms])
qed

lemma outcomesUpTo_member:
  assumes "x \<in> set (outcomesUpTo outcome tableNames n)"
  obtains i where "i < n" and "x = outcome i (tableNames ! i)"
proof -
  from assms have "x \<in> (\<lambda>i. outcome i (tableNames ! i)) ` set [0..<n]"
    by (simp only: outcomesUpTo_def set_map)
  then obtain i where "i \<in> set [0..<n]" and "x = outcome i (tableNames ! i)"
    by (rule imageE)
  then show thesis using that by simp
qed

lemma sort_restores_table_order:
  assumes m: "mset rs = mset (outcomesUpTo outcome tableNames (length tableNames))"
    and nm: "\<And>i name. tableName (outcome i name) = name"
    and cont: "contiguousNames tableNames"
    and same: "sameNameSameOutcome outcome tableNames"
  shows "sort_key (\<lambda>r. indexOf tableNames (tableName r)) rs
           = outcomesUpTo outcome tableNames (length tableNames)"
proof (rule sort_key_inj_key_eq[OF m])
  have rs: "set rs = set (outcomesUpTo outcome tableNames (length tableNames))"
    using m by (rule mset_eq_setD)
  show "inj_on (\<lambda>r. indexOf tableNames (tableName r)) (set rs)"
  proof (rule inj_onI)
    fix a b
    assume a: "a \<in> set rs" and b: "b \<in> set rs"
      and k: "indexOf tableNames (tableName a) = indexOf tableNames (tableName b)"
    from a have "a \<in> set (outcomesUpTo outcome tableNames (length tableNames))"
      by (simp only: rs)
    then obtain i where i: "i < length tableNames" "a = outcome i (tableNames ! i)"
      by (rule outcomesUpTo_member)
    from b have "b \<in> set (outcomesUpTo outcome tableNames (length tableNames))"
      by (simp only: rs)
    then obtain j where j: "j < length tableNames" "b = outcome j (tableNames ! j)"
      by (rule outcomesUpTo_member)
    from k have "indexOf tableNames (tableNames ! i) = indexOf tableNames (tableNames ! j)"
      by (simp only: i(2) j(2) nm)
    moreover from i(1) have "tableNames ! i \<in> set tableNames" by (rule nth_mem)
    ultimately have "tableNames ! i = tableNames ! j" by (rule indexOf_inj[rotated])
    with same i(1) j(1) have "outcome i (tableNames ! i) = outcome j (tableNames ! j)"
      unfolding sameNameSameOutcome_def by blast
    then show "a = b" by (simp only: i(2) j(2))
  qed
  show "sorted (map (\<lambda>r. indexOf tableNames (tableName r))
                 (outcomesUpTo outcome tableNames (length tableNames)))"
    using cont unfolding keys_of_outcomesUpTo[OF nm] contiguousNames_def .
qed

lemma sort_restores_table_names:
  assumes m: "mset rs = mset (outcomesUpTo outcome tableNames (length tableNames))"
    and nm: "\<And>i name. tableName (outcome i name) = name"
    and cont: "contiguousNames tableNames"
  shows "map tableName (sort_key (\<lambda>r. indexOf tableNames (tableName r)) rs) = tableNames"
proof -
  let ?ys = "map tableName (sort_key (\<lambda>r. indexOf tableNames (tableName r)) rs)"
  have "mset ?ys = image_mset tableName (mset rs)" by simp
  also have "\<dots> = mset (map tableName (outcomesUpTo outcome tableNames (length tableNames)))"
    unfolding m by simp
  finally have my: "mset tableNames = mset ?ys"
    by (simp only: map_tableName_outcomesUpTo[OF nm])
  have inj: "inj_on (indexOf tableNames) (set tableNames)"
    by (rule inj_onI) (rule indexOf_inj)
  have "sorted (map (\<lambda>r. indexOf tableNames (tableName r))
                  (sort_key (\<lambda>r. indexOf tableNames (tableName r)) rs))"
    by (rule sorted_sort_key)
  then have sy: "sorted (map (indexOf tableNames) ?ys)" by (simp add: comp_def)
  have "sort_key (indexOf tableNames) tableNames = ?ys"
    by (rule sort_key_inj_key_eq[OF my inj sy])
  moreover have "sort_key (indexOf tableNames) tableNames = tableNames"
    by (rule sort_key_inj_key_eq[OF refl inj cont[unfolded contiguousNames_def]])
  ultimately show ?thesis by simp
qed

subsection \<open>The two loops that fill \<open>comparison\<close>\<close>

lemma tableName_tableOutcome:
  "tableName (tableOutcome backends cfg sourceConfig targetConfig i name) = name"
  by (simp add: tableOutcome_def successComparison_def failedComparison_def split: sum.splits)

lemma collectResults_eq:
  "collectResults rs (comparisonList, totalSourceRows, matchedTables)
     = (comparisonList @ rs,
        totalSourceRows + sum_list (map sourceRows rs),
        matchedTables + int (length (filter (\<lambda>r. status r = MATCH) rs)))"
  by (induction rs arbitrary: comparisonList totalSourceRows matchedTables) simp_all

lemma sequentialLoop_eq:
  "sequentialLoop (awaitTable backends cfg sourceConfig targetConfig) xs vars
     = collectResults (map (\<lambda>(i, name). tableOutcome backends cfg sourceConfig targetConfig i name) xs)
         vars"
proof (induction xs arbitrary: vars)
  case Nil
  then show ?case by simp
next
  case (Cons x xs)
  obtain i name where x: "x = (i, name)" by (cases x)
  obtain c t m where vars: "vars = (c, t, m)" by (cases vars)
  show ?case
    unfolding x vars
    by (cases "awaitTable backends cfg sourceConfig targetConfig i name")
       (simp_all add: Cons.IH tableOutcome_def successComparison_def failedComparison_def)
qed

lemma map_zip_positions:
  "map (\<lambda>(i, name). outcome i name) (zip [0..<length tableNames] tableNames)
     = outcomesUpTo outcome tableNames (length tableNames)"
  unfolding outcomesUpTo_def by (rule nth_equalityI) simp_all

lemma sequential_comparison:
  "sequentialLoop (awaitTable backends cfg sourceConfig targetConfig)
       (zip [0..<length tableNames] tableNames) ([], 0, 0)
     = collectResults
         (outcomesUpTo (tableOutcome backends cfg sourceConfig targetConfig) tableNames
            (length tableNames)) ([], 0, 0)"
  by (simp only: sequentialLoop_eq map_zip_positions)

lemma all_match_iff_count:
  "int (length xs) - int (length (filter P xs)) = 0 \<longleftrightarrow> (\<forall>x \<in> set xs. P x)"
proof -
  have "length (filter P xs) + length (filter (\<lambda>x. \<not> P x) xs) = length xs"
    by (rule sum_length_filter_compl)
  then have "int (length xs) - int (length (filter P xs)) = 0
               \<longleftrightarrow> length (filter (\<lambda>x. \<not> P x) xs) = 0"
    by linarith
  then show ?thesis by (simp add: filter_empty_conv)
qed

lemma summarize_fields:
  assumes "length rs = length commonTables"
  shows "comparison (summarize commonTables now (collectResults rs ([], 0, 0))) = rs"
    and "(summary_status (summary (summarize commonTables now (collectResults rs ([], 0, 0))))
            = SUCCESS) \<longleftrightarrow> (\<forall>v \<in> set rs. status v = MATCH)"
    and "totalTables (summary (summarize commonTables now (collectResults rs ([], 0, 0))))
            = int (length commonTables)"
    and "matched (summary (summarize commonTables now (collectResults rs ([], 0, 0))))
            = int (length (filter (\<lambda>v. status v = MATCH) rs))"
    and "mismatched (summary (summarize commonTables now (collectResults rs ([], 0, 0))))
            = int (length (filter (\<lambda>v. status v \<noteq> MATCH) rs))"
    and "totalRows (summary (summarize commonTables now (collectResults rs ([], 0, 0))))
            = sum_list (map sourceRows rs)"
proof -
  have c: "length (filter (\<lambda>v. status v = MATCH) rs) + length (filter (\<lambda>v. status v \<noteq> MATCH) rs)
             = length rs"
    by (rule sum_length_filter_compl)
  show "comparison (summarize commonTables now (collectResults rs ([], 0, 0))) = rs"
    by (simp add: summarize_def collectResults_eq Let_def)
  show "(summary_status (summary (summarize commonTables now (collectResults rs ([], 0, 0))))
            = SUCCESS) \<longleftrightarrow> (\<forall>v \<in> set rs. status v = MATCH)"
    using all_match_iff_count[of rs "\<lambda>v. status v = MATCH"] assms
    by (simp add: summarize_def collectResults_eq Let_def)
  show "totalTables (summary (summarize commonTables now (collectResults rs ([], 0, 0))))
            = int (length commonTables)"
    by (simp add: summarize_def collectResults_eq Let_def)
  show "matched (summary (summarize commonTables now (collectResults rs ([], 0, 0))))
            = int (length (filter (\<lambda>v. status v = MATCH) rs))"
    by (simp add: summarize_def collectResults_eq Let_def)
  show "mismatched (summary (summarize commonTables now (collectResults rs ([], 0, 0))))
            = int (length (filter (\<lambda>v. status v \<noteq> MATCH) rs))"
    using c assms by (simp add: summarize_def collectResults_eq Let_def)
  show "totalRows (summary (summarize commonTables now (collectResults rs ([], 0, 0))))
            = sum_list (map sourceRows rs)"
    by (simp add: summarize_def collectResults_eq Let_def)
qed

subsection \<open>What \<open>processTablesInParallel\<close> returns\<close>

lemma parallel_results:
  assumes "processTablesInParallel outcome cfg tableNames schedule = Some sortedResults"
    and "1 \<le> maxConcurrentTables cfg"
  shows "\<exists>rs. sortedResults = sort_key (\<lambda>r. indexOf tableNames (tableName r)) rs
            \<and> mset rs = mset (outcomesUpTo outcome tableNames (length tableNames))"
proof -
  let ?c = "min (maxConcurrentTables cfg) (length tableNames)"
  let ?s = "runSchedule outcome tableNames schedule (startWorkers tableNames ?c)"
  from assms(1) have fin: "allReturned ?s"
    and sr: "sortedResults = sort_key (\<lambda>r. indexOf tableNames (tableName r)) (results ?s)"
    by (auto simp: processTablesInParallel_def Let_def split: if_splits)
  have "poolInvariant outcome tableNames ?c ?s"
    by (rule poolInvariant_run) (rule poolInvariant_start, simp)
  from results_when_allReturned[OF this fin refl assms(2)] sr show ?thesis by blast
qed

lemma parallel_returns_for_some_schedule:
  "\<exists>schedule sortedResults.
      processTablesInParallel outcome cfg tableNames schedule = Some sortedResults"
proof -
  from schedule_exists[of outcome tableNames
         "startWorkers tableNames (min (maxConcurrentTables cfg) (length tableNames))"]
  obtain schedule where
    "allReturned (runSchedule outcome tableNames schedule
       (startWorkers tableNames (min (maxConcurrentTables cfg) (length tableNames))))"
    by blast
  then have "processTablesInParallel outcome cfg tableNames schedule
      = Some (sort_key (\<lambda>r. indexOf tableNames (tableName r))
           (results (runSchedule outcome tableNames schedule
              (startWorkers tableNames (min (maxConcurrentTables cfg) (length tableNames))))))"
    by (simp add: processTablesInParallel_def Let_def)
  then show ?thesis by blast
qed

subsection \<open>What \<open>verifyMigration\<close> returns\<close>

lemma distinct_sameNameSameOutcome:
  "distinct tableNames \<Longrightarrow> sameNameSameOutcome outcome tableNames"
  unfolding sameNameSameOutcome_def by (simp add: nth_eq_iff_index_eq)

lemma verifyMigration_after_discovery:
  assumes "testConnection backends sourceConfig = Inr u1"
    and "testConnection backends targetConfig = Inr u2"
    and "getTables backends sourceConfig = Inr sourceTables"
    and "getTables backends targetConfig = Inr targetTables"
  shows "verifyMigration backends cfg sourceConfig targetConfig now schedule
     = (if enableParallelProcessing cfg
           \<and> length (filter (\<lambda>t. t \<in> set targetTables) sourceTables) > 1
        then (case processTablesInParallel (tableOutcome backends cfg sourceConfig targetConfig)
                     cfg (filter (\<lambda>t. t \<in> set targetTables) sourceTables) schedule of
                None \<Rightarrow> None
              | Some sortedResults \<Rightarrow>
                  Some (Inr (summarize (filter (\<lambda>t. t \<in> set targetTables) sourceTables) now
                               (collectResults sortedResults ([], 0, 0)))))
        else Some (Inr (summarize (filter (\<lambda>t. t \<in> set targetTables) sourceTables) now
                (collectResults
                   (outcomesUpTo (tableOutcome backends cfg sourceConfig targetConfig)
                      (filter (\<lambda>t. t \<in> set targetTables) sourceTables)
                      (length (filter (\<lambda>t. t \<in> set targetTables) sourceTables)))
                   ([], 0, 0)))))"
  unfolding verifyMigration_def
  by (simp only: assms sum.case Let_def sequential_comparison)

lemma verifyMigration_connected:
  assumes "verifyMigration backends cfg sourceConfig targetConfig now schedule = Some (Inr res)"
  shows "(\<exists>u1. testConnection backends sourceConfig = Inr u1)
       \<and> (\<exists>u2. testConnection backends targetConfig = Inr u2)
       \<and> (\<exists>s. getTables backends sourceConfig = Inr s)
       \<and> (\<exists>t. getTables backends targetConfig = Inr t)"
proof (cases "testConnection backends sourceConfig")
  case (Inl e)
  with assms show ?thesis by (simp add: verifyMigration_def)
next
  case c1: (Inr u1)
  show ?thesis
  proof (cases "testConnection backends targetConfig")
    case (Inl e)
    with assms c1 show ?thesis by (simp add: verifyMigration_def)
  next
    case c2: (Inr u2)
    show ?thesis
    proof (cases "getTables backends sourceConfig")
      case (Inl e)
      with assms c1 c2 show ?thesis by (simp add: verifyMigration_def)
    next
      case g1: (Inr s)
      show ?thesis
      proof (cases "getTables backends targetConfig")
        case (Inl e)
        with assms c1 c2 g1 show ?thesis by (simp add: verifyMigration_def)
      next
        case g2: (Inr t)
        from c1 c2 g1 g2 show ?thesis by simp
      qed
    qed
  qed
qed

lemma verifyMigration_result:
  assumes t1: "testConnection backends sourceConfig = Inr u1"
    and t2: "testConnection backends targetConfig = Inr u2"
    and g1: "getTables backends sourceConfig = Inr sourceTables"
    and g2: "getTables backends targetConfig = Inr targetTables"
    and maxc: "1 \<le> maxConcurrentTables cfg"
    and run: "verifyMigration backends cfg sourceConfig targetConfig now schedule = Some out"
  shows "\<exists>rs. out = Inr (summarize (filter (\<lambda>t. t \<in> set targetTables) sourceTables) now
                        (collectResults rs ([], 0, 0)))
            \<and> mset rs = mset (outcomesUpTo (tableOutcome backends cfg sourceConfig targetConfig)
                                (filter (\<lambda>t. t \<in> set targetTables) sourceTables)
                                (length (filter (\<lambda>t. t \<in> set targetTables) sourceTables)))"
proof -
  let ?common = "filter (\<lambda>t. t \<in> set targetTables) sourceTables"
  let ?outcome = "tableOutcome backends cfg sourceConfig targetConfig"
  note eq = verifyMigration_after_discovery[OF t1 t2 g1 g2, of cfg now schedule]
  show ?thesis
  proof (cases "enableParallelProcessing cfg \<and> length ?common > 1")
    case True
    show ?thesis
    proof (cases "processTablesInParallel ?outcome cfg ?common schedule")
      case None
      have "verifyMigration backends cfg sourceConfig targetConfig now schedule = None"
        by (subst eq) (simp only: True simp_thms if_True None option.case)
      with run show ?thesis by simp
    next
      case (Some sortedResults)
      from parallel_results[OF Some maxc] obtain rs where
        sr: "sortedResults = sort_key (\<lambda>r. indexOf ?common (tableName r)) rs"
        and m: "mset rs = mset (outcomesUpTo ?outcome ?common (length ?common))"
        by blast
      from sr have "mset sortedResults = mset rs" by simp
      with m have m': "mset sortedResults = mset (outcomesUpTo ?outcome ?common (length ?common))"
        by simp
      have "verifyMigration backends cfg sourceConfig targetConfig now schedule
          = Some (Inr (summarize ?common now (collectResults sortedResults ([], 0, 0))))"
        by (subst eq) (simp only: True simp_thms if_True Some option.case)
      with run
      have "out = Inr (summarize ?common now (collectResults sortedResults ([], 0, 0)))"
        by simp
      with m' show ?thesis by blast
    qed
  next
    case False
    have "verifyMigration backends cfg sourceConfig targetConfig now schedule
        = Some (Inr (summarize ?common now
             (collectResults (outcomesUpTo ?outcome ?common (length ?common)) ([], 0, 0))))"
      by (subst eq) (simp only: False simp_thms if_False)
    with run
    have "out = Inr (summarize ?common now
             (collectResults (outcomesUpTo ?outcome ?common (length ?common)) ([], 0, 0)))"
      by simp
    then show ?thesis by blast
  qed
qed


lemma names_of_outcomes:
  assumes "mset rs = mset (outcomesUpTo (tableOutcome backends cfg sourceConfig targetConfig)
                             tableNames (length tableNames))"
  shows "mset (map tableName rs) = mset tableNames"
proof -
  have "mset (map tableName rs) = image_mset tableName (mset rs)" by simp
  also have "\<dots> = mset (map tableName
       (outcomesUpTo (tableOutcome backends cfg sourceConfig targetConfig)
          tableNames (length tableNames)))"
    unfolding assms by simp
  also have "\<dots> = mset tableNames"
    by (simp only: map_tableName_outcomesUpTo[OF tableName_tableOutcome])
  finally show ?thesis .
qed

subsection \<open>The example run\<close>

lemma example_customers:
  "awaitTable exampleBackends exampleConfig exampleSource exampleTarget 0 ''customers''
     = Inr \<lparr>sourceRows = 5, targetRows = 5, schemaMatch = True, status = MATCH,
            sourceColumns = exampleColumns, targetColumns = exampleColumns,
            dataMappingValid = True,
            dataMappingDetails = ''Identical SQLite database - same file for source and target''\<rparr>"
proof -
  have cs: "compareSchemas exampleColumns exampleColumns = Inr True"
    by code_simp
  show ?thesis
    by (simp add: awaitTable_def withTimeout_def processTableVerification_def
          exampleBackends_def exampleConfig_def exampleSource_def exampleTarget_def
          exampleSqlite_def cs verifyDataMapping_def)
qed






lemma example_common:
  "filter (\<lambda>t. t \<in> set [''audit'', ''customers'', ''orders''])
     [''customers'', ''orders'', ''staging''] = [''customers'', ''orders'']"
  by simp

lemma example_discovery:
  "testConnection exampleBackends exampleSource = Inr ()"
  "testConnection exampleBackends exampleTarget = Inr ()"
  "getTables exampleBackends exampleSource = Inr [''customers'', ''orders'', ''staging'']"
  "getTables exampleBackends exampleTarget = Inr [''audit'', ''customers'', ''orders'']"
  by (simp_all add: exampleBackends_def exampleSource_def exampleTarget_def exampleSqlite_def)

lemma example_parallel_run:
  "processTablesInParallel (tableOutcome exampleBackends exampleConfig exampleSource exampleTarget)
       exampleConfig [''customers'', ''orders''] [1, 0, 1, 0]
     = Some [tableOutcome exampleBackends exampleConfig exampleSource exampleTarget 0 ''customers'',
             tableOutcome exampleBackends exampleConfig exampleSource exampleTarget 1 ''orders'']"
  by (simp add: processTablesInParallel_def Let_def startWorkers_def exampleConfig_def
        workerStep_def allReturned_def tableName_tableOutcome)

lemma example_contiguous: "contiguousNames [''customers'', ''orders'']"
  by (rule distinct_contiguousNames) simp

section \<open>Proofs: the claims about the run\<close>

text \<open>
  Claim C6. Whatever the order in which the workers of \<open>processTablesInParallel\<close> run and
  finish (every schedule that lets all of them return), the returned list is ordered by
  the position of each object's table in \<open>tableNames\<close>, the discovery order of the
  source: the keys never decrease, the names in the list are those of \<open>tableNames\<close>, and
  the column of names is \<open>tableNames\<close> itself when equal names stand together (as in any
  list without repetition). The configuration holds at least one worker, as
  \<open>validateConfig\<close> demands.
\<close>

theorem parallel_results_in_discovery_order:
  assumes "processTablesInParallel (tableOutcome backends cfg sourceConfig targetConfig)
             cfg tableNames schedule = Some sortedResults"
    and "1 \<le> maxConcurrentTables cfg"
  shows "sorted (map (\<lambda>r. indexOf tableNames (tableName r)) sortedResults)
       \<and> mset (map tableName sortedResults) = mset tableNames
       \<and> (contiguousNames tableNames \<longrightarrow> map tableName sortedResults = tableNames)"
proof -
  let ?outcome = "tableOutcome backends cfg sourceConfig targetConfig"
  from parallel_results[OF assms] obtain rs where
    sr: "sortedResults = sort_key (\<lambda>r. indexOf tableNames (tableName r)) rs"
    and m: "mset rs = mset (outcomesUpTo ?outcome tableNames (length tableNames))"
    by blast
  have s: "sorted (map (\<lambda>r. indexOf tableNames (tableName r)) sortedResults)"
    unfolding sr by (rule sorted_sort_key)
  from sr have "mset sortedResults = mset rs" by simp
  with m have "mset sortedResults = mset (outcomesUpTo ?outcome tableNames (length tableNames))"
    by simp
  then have n: "mset (map tableName sortedResults) = mset tableNames"
    by (rule names_of_outcomes)
  have c: "map tableName sortedResults = tableNames" if "contiguousNames tableNames"
    unfolding sr by (rule sort_restores_table_names[OF m tableName_tableOutcome that])
  from s n c show ?thesis by blast
qed

theorem parallel_results_in_discovery_order_witness:
  "processTablesInParallel (tableOutcome exampleBackends exampleConfig exampleSource exampleTarget)
       exampleConfig [''customers'', ''orders''] [1, 0, 1, 0]
     = Some [tableOutcome exampleBackends exampleConfig exampleSource exampleTarget 0 ''customers'',
             tableOutcome exampleBackends exampleConfig exampleSource exampleTarget 1 ''orders'']
   \<and> 1 \<le> maxConcurrentTables exampleConfig
   \<and> contiguousNames [''customers'', ''orders'']
   \<and> map tableName
        [tableOutcome exampleBackends exampleConfig exampleSource exampleTarget 0 ''customers'',
         tableOutcome exampleBackends exampleConfig exampleSource exampleTarget 1 ''orders'']
      = [''customers'', ''orders'']"
proof -
  have m: "1 \<le> maxConcurrentTables exampleConfig" by (simp add: exampleConfig_def)
  from parallel_results_in_discovery_order[OF example_parallel_run m]
    example_parallel_run m example_contiguous
  show ?thesis by blast
qed

text \<open>
  Claim C10. In parallel mode every table of the list is taken by exactly one worker
  and verified once: for every schedule that lets all workers return, the returned list
  holds, for each position of \<open>tableNames\<close>, the object of that table exactly once (so it
  has one object per table). When equal names stand together and get equal objects
  (both hold of any list without repetition), the returned list is, as a list, the
  \<open>comparison\<close> list that the sequential loop builds for the same tables. Some schedule
  lets all workers return. The configuration holds at least one worker, as
  \<open>validateConfig\<close> demands.
\<close>

theorem parallel_equals_sequential:
  assumes "processTablesInParallel (tableOutcome backends cfg sourceConfig targetConfig)
             cfg tableNames schedule = Some sortedResults"
    and "1 \<le> maxConcurrentTables cfg"
  shows "mset sortedResults
           = mset (map (\<lambda>i. tableOutcome backends cfg sourceConfig targetConfig i (tableNames ! i))
                     [0..<length tableNames])
       \<and> length sortedResults = length tableNames
       \<and> (contiguousNames tableNames
            \<and> sameNameSameOutcome (tableOutcome backends cfg sourceConfig targetConfig) tableNames
          \<longrightarrow> sortedResults
                = fst (sequentialLoop (awaitTable backends cfg sourceConfig targetConfig)
                         (zip [0..<length tableNames] tableNames) ([], 0, 0)))
       \<and> (\<exists>schedule' sortedResults'.
             processTablesInParallel (tableOutcome backends cfg sourceConfig targetConfig)
               cfg tableNames schedule' = Some sortedResults')"
proof -
  let ?outcome = "tableOutcome backends cfg sourceConfig targetConfig"
  from parallel_results[OF assms] obtain rs where
    sr: "sortedResults = sort_key (\<lambda>r. indexOf tableNames (tableName r)) rs"
    and m: "mset rs = mset (outcomesUpTo ?outcome tableNames (length tableNames))"
    by blast
  from sr have "mset sortedResults = mset rs" by simp
  with m have m': "mset sortedResults = mset (outcomesUpTo ?outcome tableNames (length tableNames))"
    by simp
  then have a: "mset sortedResults
           = mset (map (\<lambda>i. ?outcome i (tableNames ! i)) [0..<length tableNames])"
    by (simp only: outcomesUpTo_def)
  from m' have "length sortedResults = length (outcomesUpTo ?outcome tableNames (length tableNames))"
    by (rule mset_eq_length)
  then have b: "length sortedResults = length tableNames"
    by (simp add: outcomesUpTo_def)
  have seq: "fst (sequentialLoop (awaitTable backends cfg sourceConfig targetConfig)
                         (zip [0..<length tableNames] tableNames) ([], 0, 0))
               = outcomesUpTo ?outcome tableNames (length tableNames)"
    by (simp only: sequential_comparison collectResults_eq append_Nil fst_conv)
  have c: "sortedResults
                = fst (sequentialLoop (awaitTable backends cfg sourceConfig targetConfig)
                         (zip [0..<length tableNames] tableNames) ([], 0, 0))"
    if "contiguousNames tableNames" and "sameNameSameOutcome ?outcome tableNames"
    unfolding seq sr
    by (rule sort_restores_table_order[OF m tableName_tableOutcome that])
  from a b c parallel_returns_for_some_schedule[of ?outcome cfg tableNames]
  show ?thesis by blast
qed

theorem parallel_equals_sequential_witness:
  "processTablesInParallel (tableOutcome exampleBackends exampleConfig exampleSource exampleTarget)
       exampleConfig [''customers'', ''orders''] [1, 0, 1, 0]
     = Some [tableOutcome exampleBackends exampleConfig exampleSource exampleTarget 0 ''customers'',
             tableOutcome exampleBackends exampleConfig exampleSource exampleTarget 1 ''orders'']
   \<and> 1 \<le> maxConcurrentTables exampleConfig
   \<and> contiguousNames [''customers'', ''orders'']
   \<and> sameNameSameOutcome (tableOutcome exampleBackends exampleConfig exampleSource exampleTarget)
        [''customers'', ''orders'']
   \<and> [tableOutcome exampleBackends exampleConfig exampleSource exampleTarget 0 ''customers'',
       tableOutcome exampleBackends exampleConfig exampleSource exampleTarget 1 ''orders'']
      = fst (sequentialLoop (awaitTable exampleBackends exampleConfig exampleSource exampleTarget)
               (zip [0..<length [''customers'', ''orders'']] [''customers'', ''orders''])
               ([], 0, 0))"
proof -
  have m: "1 \<le> maxConcurrentTables exampleConfig" by (simp add: exampleConfig_def)
  have s: "sameNameSameOutcome
             (tableOutcome exampleBackends exampleConfig exampleSource exampleTarget)
             [''customers'', ''orders'']"
    by (rule distinct_sameNameSameOutcome) simp
  from parallel_equals_sequential[OF example_parallel_run m]
    example_parallel_run m example_contiguous s
  show ?thesis by blast
qed




text \<open>
  Claim C2. For every run of \<open>verifyMigration\<close> that returns a result (it reached the
  aggregation), the summary's status is \<open>SUCCESS\<close> exactly if every object of the
  \<open>comparison\<close> list has status \<open>MATCH\<close>; the list holds one object for each common table
  and none for a table present on one side only; and the summary counts the common
  tables, the objects with status \<open>MATCH\<close> and the others. The configuration holds at
  least one worker, as \<open>validateConfig\<close> demands.
\<close>

theorem run_summary_over_common_tables:
  assumes "verifyMigration backends cfg sourceConfig targetConfig now schedule = Some (Inr res)"
    and "1 \<le> maxConcurrentTables cfg"
    and "getTables backends sourceConfig = Inr sourceTables"
    and "getTables backends targetConfig = Inr targetTables"
  shows "(summary_status (summary res) = SUCCESS
            \<longleftrightarrow> (\<forall>v \<in> set (comparison res). status v = MATCH))
       \<and> mset (map tableName (comparison res))
            = mset (filter (\<lambda>t. t \<in> set targetTables) sourceTables)
       \<and> set (map tableName (comparison res)) = set sourceTables \<inter> set targetTables
       \<and> totalTables (summary res)
            = int (length (filter (\<lambda>t. t \<in> set targetTables) sourceTables))
       \<and> matched (summary res)
            = int (length (filter (\<lambda>v. status v = MATCH) (comparison res)))
       \<and> mismatched (summary res)
            = int (length (filter (\<lambda>v. status v \<noteq> MATCH) (comparison res)))"
proof -
  let ?common = "filter (\<lambda>t. t \<in> set targetTables) sourceTables"
  let ?outcome = "tableOutcome backends cfg sourceConfig targetConfig"
  from verifyMigration_connected[OF assms(1)] obtain u1 u2 where
    t1: "testConnection backends sourceConfig = Inr u1"
    and t2: "testConnection backends targetConfig = Inr u2"
    by blast
  from verifyMigration_result[OF t1 t2 assms(3) assms(4) assms(2) assms(1)] obtain rs where
    "Inr res = (Inr (summarize ?common now (collectResults rs ([], 0, 0)))
                  :: thrown + VerificationResult)"
    and m: "mset rs = mset (outcomesUpTo ?outcome ?common (length ?common))"
    by blast
  then have res: "res = summarize ?common now (collectResults rs ([], 0, 0))"
    by (simp only: sum.inject)
  from m have "length rs = length (outcomesUpTo ?outcome ?common (length ?common))"
    by (rule mset_eq_length)
  then have len: "length rs = length ?common" by (simp add: outcomesUpTo_def)
  note f = summarize_fields[OF len, of now, folded res]
  from m have names: "mset (map tableName rs) = mset ?common"
    by (rule names_of_outcomes)
  then have "set (map tableName rs) = set ?common"
    by (rule mset_eq_setD)
  then have sets: "set (map tableName rs) = set sourceTables \<inter> set targetTables"
    by (simp only: set_filter) blast
  show ?thesis
    unfolding f using f(2) names sets by (simp only: simp_thms)
qed

theorem run_summary_over_common_tables_witness:
  "verifyMigration exampleBackends exampleConfig exampleSource exampleTarget
       ''2025-01-01T00:00:00.000Z'' [1, 0, 1, 0]
     = Some (Inr (summarize [''customers'', ''orders''] ''2025-01-01T00:00:00.000Z''
         (collectResults
            [tableOutcome exampleBackends exampleConfig exampleSource exampleTarget 0 ''customers'',
             tableOutcome exampleBackends exampleConfig exampleSource exampleTarget 1 ''orders'']
            ([], 0, 0))))
   \<and> 1 \<le> maxConcurrentTables exampleConfig
   \<and> getTables exampleBackends exampleSource = Inr [''customers'', ''orders'', ''staging'']
   \<and> getTables exampleBackends exampleTarget = Inr [''audit'', ''customers'', ''orders'']
   \<and> totalTables (summary (summarize [''customers'', ''orders''] ''2025-01-01T00:00:00.000Z''
         (collectResults
            [tableOutcome exampleBackends exampleConfig exampleSource exampleTarget 0 ''customers'',
             tableOutcome exampleBackends exampleConfig exampleSource exampleTarget 1 ''orders'']
            ([], 0, 0)))) = 2
   \<and> set (map tableName (comparison (summarize [''customers'', ''orders''] ''2025-01-01T00:00:00.000Z''
         (collectResults
            [tableOutcome exampleBackends exampleConfig exampleSource exampleTarget 0 ''customers'',
             tableOutcome exampleBackends exampleConfig exampleSource exampleTarget 1 ''orders'']
            ([], 0, 0)))))
       = set [''customers'', ''orders'', ''staging''] \<inter> set [''audit'', ''customers'', ''orders'']"
proof -
  have m: "1 \<le> maxConcurrentTables exampleConfig" by (simp add: exampleConfig_def)
  have p: "enableParallelProcessing exampleConfig" by (simp add: exampleConfig_def)
  have l: "1 < length [''customers'', ''orders'']" by simp
  have run: "verifyMigration exampleBackends exampleConfig exampleSource exampleTarget
       ''2025-01-01T00:00:00.000Z'' [1, 0, 1, 0]
     = Some (Inr (summarize [''customers'', ''orders''] ''2025-01-01T00:00:00.000Z''
         (collectResults
            [tableOutcome exampleBackends exampleConfig exampleSource exampleTarget 0 ''customers'',
             tableOutcome exampleBackends exampleConfig exampleSource exampleTarget 1 ''orders'']
            ([], 0, 0))))"
    by (subst verifyMigration_after_discovery[OF example_discovery])
       (simp only: example_common p l simp_thms if_True example_parallel_run option.case)
  from run_summary_over_common_tables[OF run m example_discovery(3) example_discovery(4)]
    run m example_discovery(3) example_discovery(4)
  show ?thesis by (simp only: example_common list.size) simp
qed

section \<open>Proofs: the connection pool\<close>











subsection \<open>Acquiring\<close>




lemma getConnectionStart_awaits_unchanged:
  "fst (getConnectionStart now c p) = AwaitingCreate \<Longrightarrow> snd (getConnectionStart now c p) = p"
  by (cases "getAvailableConnection p now (getPoolKey c)")
     (simp_all add: getConnectionStart_def Let_def split: if_splits)

lemma getConnection_awaits:
  "fst (getConnectionStart now c p) = AwaitingCreate \<Longrightarrow>
     getConnection driverConnect now later c p
       = getConnectionResume later c (createConnection driverConnect c) p"
  using getConnectionStart_awaits_unchanged[of now c p]
  by (cases "getConnectionStart now c p") (simp add: getConnection_def)




subsection \<open>Releasing twice\<close>










lemma example_pool_key: "getPoolKey exampleMysql = ''mysql:db1:3306:shop:app''"
  by code_simp


text \<open>
  The limit is checked before the \<open>await\<close> and the count is raised after it: two calls
  that overlap can both pass the check of a pool with one free place, and the count then
  passes the maximum.
\<close>

lemma overlapping_acquisitions_pass_the_limit:
  "getConnectionStart 400000 exampleMysql (examplePool\<lparr>maxConnections := 2\<rparr>)
     = (AwaitingCreate, examplePool\<lparr>maxConnections := 2\<rparr>)
   \<and> activeConnections
        (snd (getConnectionResume 400020 exampleMysql (Inr 9)
               (snd (getConnectionResume 400010 exampleMysql (Inr 8)
                      (examplePool\<lparr>maxConnections := 2\<rparr>))))) = 3
   \<and> maxConnections
        (snd (getConnectionResume 400020 exampleMysql (Inr 9)
               (snd (getConnectionResume 400010 exampleMysql (Inr 8)
                      (examplePool\<lparr>maxConnections := 2\<rparr>))))) = 2"
  by (simp add: getConnectionStart_def getConnectionResume_def Let_def example_pool_key
        getAvailableConnection_def examplePool_def isConnectionValid_def)



end
